theory Spec2Isabelle
  imports Complex_Main "HOL-Library.Sublist" "HOL-Library.Multiset"
begin

section \<open>Data model of server.js\<close>

text \<open>
  A session is the object stored in the \<open>players\<close> map under its socket id. The field
  \<open>id\<close> of the source is called \<open>pid\<close> here (\<open>id\<close> is the identity function of HOL).
  \<open>null\<close> is \<open>None\<close>. The field \<open>action\<close> is \<open>null\<close>, \<open>'defend'\<close> or \<open>'attack'\<close>;
  \<open>attackType\<close> is \<open>null\<close>, \<open>'distance'\<close> or \<open>'melee'\<close> (the attack handler rejects
  every other value before it stores one).
\<close>

datatype action = Defend | Attack

datatype attack_type = Distance | Melee

record player =
  pid :: string
  odIdentifier :: string
  name :: string
  points :: int
  playerNumber :: int
  characterImage :: int
  clanName :: "string option"
  dailyRevengeKills :: int
  dailyMaxStreak :: int
  challengeRevengeClaimed :: bool
  challengeStreakClaimed :: bool
  streak :: int
  inPit :: bool
  action :: "action option"
  actionTarget :: "string option"
  actionTime :: "int option"
  attackType :: "attack_type option"
  canHeckle :: bool

text \<open>
  One entry of the \<open>results\<close> array of a resolution pass. \<open>winner\<close> and \<open>loser\<close> hold a
  reference to a session object in the source; the pass only ever reads the \<open>id\<close> of the
  referenced object, so the model stores that id. \<open>attacker\<close> and \<open>defender\<close> are the
  \<open>{id, name}\<close> pairs. Fields the source leaves undefined until it sets them
  (\<open>isRevenge\<close>, \<open>captured\<close>) are \<open>False\<close> until set, \<open>capturedBy\<close>, \<open>isStreakKill\<close> and
  \<open>isGangAttack\<close> are \<open>None\<close> until set.
\<close>

record result =
  attacker :: "string \<times> string"
  defender :: "string \<times> string"
  winner :: "string option"
  loser :: "string option"
  reason :: string
  attackerNumber :: int
  defenderNumber :: int
  resultAttackType :: "attack_type option"
  isRevenge :: bool
  captured :: bool
  capturedBy :: "string option"
  isStreakKill :: "bool option"
  isGangAttack :: "bool option"

section \<open>Character creation\<close>

text \<open>
  \<open>generatePlayerNumber\<close> is \<open>Math.floor(Math.random() * 100)\<close>. The random source is a
  parameter: \<open>Math.random()\<close> returns a number \<open>r\<close> with \<open>0 \<le> r < 1\<close>.
\<close>

definition generatePlayerNumber :: "real \<Rightarrow> int" where
  "generatePlayerNumber r = \<lfloor>r * 100\<rfloor>"

section \<open>Combat resolver\<close>

text \<open>
  The relational operator \<open><\<close> of JavaScript on two values that are numbers or \<open>null\<close>:
  \<open>null\<close> is converted to 0.
\<close>

definition toNumber :: "int option \<Rightarrow> int" where
  "toNumber v = (case v of None \<Rightarrow> 0 | Some n \<Rightarrow> n)"

definition js_lt :: "int option \<Rightarrow> int option \<Rightarrow> bool" where
  "js_lt a b = (toNumber a < toNumber b)"

definition determineWinner :: "player \<Rightarrow> player \<Rightarrow> result" where
  "determineWinner att tgt =
    (let res = \<lparr> attacker = (pid att, name att),
                  defender = (pid tgt, name tgt),
                  winner = None,
                  loser = None,
                  reason = [],
                  attackerNumber = playerNumber att,
                  defenderNumber = playerNumber tgt,
                  resultAttackType = attackType att,
                  isRevenge = False,
                  captured = False,
                  capturedBy = None,
                  isStreakKill = None,
                  isGangAttack = None \<rparr>
     in
     if action tgt = Some Attack \<and> actionTarget tgt \<noteq> Some (pid att) then
       res\<lparr>winner := Some (pid att), loser := Some (pid tgt), reason := ''caught attacking''\<rparr>
     else if action tgt = Some Attack \<and> actionTarget tgt = Some (pid att) then
       (if attackType att = Some Distance \<and> attackType tgt = Some Melee then
          res\<lparr>winner := Some (pid att), loser := Some (pid tgt),
              reason := ''distance beats melee''\<rparr>
        else if attackType att = Some Melee \<and> attackType tgt = Some Distance then
          res\<lparr>winner := Some (pid tgt), loser := Some (pid att),
              reason := ''distance beats melee'', resultAttackType := attackType tgt\<rparr>
        else if js_lt (actionTime att) (actionTime tgt) then
          res\<lparr>winner := Some (pid att), loser := Some (pid tgt), reason := ''faster draw''\<rparr>
        else
          res\<lparr>winner := Some (pid tgt), loser := Some (pid att), reason := ''faster draw''\<rparr>)
     else if attackType att = Some Distance then
       (if playerNumber att \<ge> playerNumber tgt then
          res\<lparr>winner := Some (pid att), loser := Some (pid tgt),
              reason := (if playerNumber att = playerNumber tgt
                         then ''tie - attacker wins'' else ''higher number'')\<rparr>
        else
          res\<lparr>winner := Some (pid tgt), loser := Some (pid att), reason := ''higher number''\<rparr>)
     else
       (if playerNumber att \<le> playerNumber tgt then
          res\<lparr>winner := Some (pid att), loser := Some (pid tgt),
              reason := (if playerNumber att = playerNumber tgt
                         then ''tie - attacker wins'' else ''lower number'')\<rparr>
        else
          res\<lparr>winner := Some (pid tgt), loser := Some (pid att), reason := ''lower number''\<rparr>))"

text \<open>A concrete session, for the closed instances below.\<close>

definition mkPlayer :: "string \<Rightarrow> int \<Rightarrow> int \<Rightarrow> player" where
  "mkPlayer i pts num =
    \<lparr> pid = i, odIdentifier = ''od_'' @ i, name = i, points = pts, playerNumber = num,
      characterImage = 1, clanName = None, dailyRevengeKills = 0, dailyMaxStreak = 0,
      challengeRevengeClaimed = False, challengeStreakClaimed = False, streak = 0,
      inPit = True, action = None, actionTarget = None, actionTime = None,
      attackType = None, canHeckle = False \<rparr>"

definition attacking :: "player \<Rightarrow> string \<Rightarrow> attack_type \<Rightarrow> int \<Rightarrow> player" where
  "attacking p t ty tm =
    p\<lparr>action := Some Attack, actionTarget := Some t, actionTime := Some tm,
      attackType := Some ty\<rparr>"

section \<open>Persistence\<close>

text \<open>
  The \<open>players\<close> table, keyed by \<open>od_identifier\<close>, with the columns the modelled code
  reads or writes. \<open>process.env.DATABASE_URL\<close> is the flag \<open>url\<close> of each function
  that tests it. A query is taken to succeed; an \<open>UPDATE\<close> of a missing row changes
  nothing.
\<close>

record db_row =
  row_name :: string
  row_points :: int
  row_player_number :: int
  row_character_image :: int
  clan_name :: "string option"
  owner_id :: "string option"
  daily_revenge_kills :: int
  daily_max_streak :: int

type_synonym db = "string \<Rightarrow> db_row option"

definition captureCharacter :: "bool \<Rightarrow> string \<Rightarrow> string option \<Rightarrow> string option \<Rightarrow> db \<Rightarrow> db" where
  "captureCharacter url capturedId newClanName newOwnerId d =
    (if \<not> url then d
     else (case d capturedId of
             None \<Rightarrow> d
           | Some r \<Rightarrow> d(capturedId \<mapsto> r\<lparr>clan_name := newClanName, owner_id := newOwnerId\<rparr>)))"

definition updatePlayerPoints :: "bool \<Rightarrow> string \<Rightarrow> int \<Rightarrow> db \<Rightarrow> db" where
  "updatePlayerPoints url odId pts d =
    (if \<not> url then d
     else (case d odId of
             None \<Rightarrow> d
           | Some r \<Rightarrow> d(odId \<mapsto> r\<lparr>row_points := pts\<rparr>)))"

definition updateDailyChallenge :: "bool \<Rightarrow> string \<Rightarrow> int \<Rightarrow> int \<Rightarrow> db \<Rightarrow> db" where
  "updateDailyChallenge url odId revengeKills maxStreak d =
    (if \<not> url then d
     else (case d odId of
             None \<Rightarrow> d
           | Some r \<Rightarrow> d(odId \<mapsto> r\<lparr>daily_revenge_kills := max (daily_revenge_kills r) revengeKills,
                                   daily_max_streak := max (daily_max_streak r) maxStreak\<rparr>)))"

section \<open>Pit tick engine\<close>

text \<open>
  The \<open>players\<close> map is the list of its sessions in insertion order; the key of a
  session is its \<open>pid\<close> (the source stores every session under \<open>socket.id\<close> with
  \<open>id: socket.id\<close>). A list stands for a map only when the keys are distinct.
\<close>

definition players_get :: "player list \<Rightarrow> string \<Rightarrow> player option" where
  "players_get ps k = find (\<lambda>p. pid p = k) ps"

definition players_modify :: "string \<Rightarrow> (player \<Rightarrow> player) \<Rightarrow> player list \<Rightarrow> player list" where
  "players_modify k f ps = map (\<lambda>p. if pid p = k then f p else p) ps"

text \<open>An entry of \<open>revengeTargets\<close>, stored under the \<open>odIdentifier\<close> of the avenger:
  the \<open>odIdentifier\<close> of the player to avenge against, and the expiry instant.\<close>

record revenge =
  revengeOd :: string
  expiresAt :: int

record pit_state =
  players :: "player list"
  revengeTargets :: "string \<Rightarrow> revenge option"
  table :: db

text \<open>\<open>Set.add\<close>: a \<open>Set\<close> iterates in insertion order.\<close>

definition set_add :: "'a \<Rightarrow> 'a list \<Rightarrow> 'a list" where
  "set_add x xs = (if x \<in> set xs then xs else xs @ [x])"

text \<open>The map \<open>attacksByTarget\<close>, in insertion order of its keys: \<open>pushAttack\<close> is
  \<open>if (!has(t)) set(t, []); get(t).push(p)\<close>. An action target counts when it is
  truthy, that is a non-empty string.\<close>

fun pushAttack :: "string \<Rightarrow> player \<Rightarrow> (string \<times> player list) list \<Rightarrow> (string \<times> player list) list" where
  "pushAttack t p [] = [(t, [p])]"
| "pushAttack t p ((k, ps) # m) =
     (if k = t then (k, ps @ [p]) # m else (k, ps) # pushAttack t p m)"

definition attackOf :: "player \<Rightarrow> string option" where
  "attackOf p =
    (if inPit p \<and> action p = Some Attack then
       (case actionTarget p of None \<Rightarrow> None | Some t \<Rightarrow> if t = [] then None else Some t)
     else None)"

definition attacksByTarget :: "player list \<Rightarrow> (string \<times> player list) list" where
  "attacksByTarget ps =
    foldl (\<lambda>m p. case attackOf p of None \<Rightarrow> m | Some t \<Rightarrow> pushAttack t p m) [] ps"

text \<open>The accumulators of the resolution loop; \<open>revenges\<close> is the map
  \<open>revengeTargets\<close> as the loop changes it.\<close>

record resolution =
  results :: "result list"
  losers :: "string list"
  winners :: "string list"
  winnerBonuses :: "string \<Rightarrow> int option"
  revenges :: "string \<Rightarrow> revenge option"

text \<open>\<open>myRevenge && myRevenge.odIdentifier === target.odIdentifier &&
  myRevenge.expiresAt > now\<close>, as a truth value.\<close>

definition isRevengeOn :: "(string \<Rightarrow> revenge option) \<Rightarrow> int \<Rightarrow> player \<Rightarrow> player \<Rightarrow> bool" where
  "isRevengeOn rt now att tgt =
    (case rt (odIdentifier att) of
       None \<Rightarrow> False
     | Some r \<Rightarrow> revengeOd r = odIdentifier tgt \<and> expiresAt r > now)"

text \<open>\<open>winnerBonuses.set(id, (winnerBonuses.get(id) || 0) + 2);
  revengeTargets.delete(odIdentifier)\<close>.\<close>

definition bonusOf :: "(string \<Rightarrow> int option) \<Rightarrow> string \<Rightarrow> int" where
  "bonusOf b k = (case b k of None \<Rightarrow> 0 | Some n \<Rightarrow> n)"

definition claimRevenge :: "player \<Rightarrow> resolution \<Rightarrow> resolution" where
  "claimRevenge att rs =
    rs\<lparr>winnerBonuses := (winnerBonuses rs)(pid att \<mapsto> bonusOf (winnerBonuses rs) (pid att) + 2),
       revenges := (revenges rs)(odIdentifier att := None)\<rparr>"

text \<open>The body of the loop over the attackers of a gang attack.\<close>

definition gangAttacker :: "int \<Rightarrow> player \<Rightarrow> resolution \<Rightarrow> player \<Rightarrow> resolution" where
  "gangAttacker now tgt rs att =
    (let rs1 = rs\<lparr>winners := set_add (pid att) (winners rs)\<rparr>;
         isRev = isRevengeOn (revenges rs1) now att tgt;
         rs2 = (if isRev then claimRevenge att rs1 else rs1)
     in rs2\<lparr>results := results rs2 @
          [\<lparr> attacker = (pid att, name att),
             defender = (pid tgt, name tgt),
             winner = Some (pid att),
             loser = Some (pid tgt),
             reason = ''gang attack'',
             attackerNumber = playerNumber att,
             defenderNumber = playerNumber tgt,
             resultAttackType = attackType att,
             isRevenge = isRev,
             captured = False,
             capturedBy = None,
             isStreakKill = None,
             isGangAttack = None \<rparr>]\<rparr>)"

text \<open>The branch for a single attacker, after the test \<open>losers.has(attacker.id)\<close>.\<close>

definition singleAttack :: "int \<Rightarrow> player \<Rightarrow> player \<Rightarrow> resolution \<Rightarrow> resolution" where
  "singleAttack now tgt att rs =
    (let res = determineWinner att tgt;
         attackerWon = (winner res = Some (pid att));
         isRev = (attackerWon \<and> isRevengeOn (revenges rs) now att tgt);
         res1 = (if attackerWon then res\<lparr>isRevenge := isRev\<rparr> else res);
         rs1 = (if isRev then claimRevenge att rs else rs);
         rs2 = rs1\<lparr>results := results rs1 @ [res1]\<rparr>;
         rs3 = (case loser res1 of None \<Rightarrow> rs2
                | Some l \<Rightarrow> rs2\<lparr>losers := set_add l (losers rs2)\<rparr>)
     in (case winner res1 of None \<Rightarrow> rs3
         | Some w \<Rightarrow> rs3\<lparr>winners := set_add w (winners rs3)\<rparr>))"

text \<open>The body of the loop \<open>for (const [targetId, attackers] of attacksByTarget)\<close>. A
  group is never empty; for the empty list the model leaves the state as it is.\<close>

definition processGroup :: "player list \<Rightarrow> int \<Rightarrow> resolution \<Rightarrow> string \<times> player list \<Rightarrow> resolution" where
  "processGroup ps now rs g =
    (case g of (targetId, attackers) \<Rightarrow>
      (case players_get ps targetId of
         None \<Rightarrow> rs
       | Some tgt \<Rightarrow>
           if \<not> inPit tgt then rs
           else if length attackers > 1 then
             foldl (gangAttacker now tgt) (rs\<lparr>losers := set_add targetId (losers rs)\<rparr>) attackers
           else
             (case attackers of
                [] \<Rightarrow> rs
              | att # _ \<Rightarrow> if pid att \<in> set (losers rs) then rs else singleAttack now tgt att rs)))"

definition resolveAttacks :: "int \<Rightarrow> player list \<Rightarrow> (string \<Rightarrow> revenge option) \<Rightarrow> resolution" where
  "resolveAttacks now ps rt =
    foldl (processGroup ps now)
      \<lparr> results = [], losers = [], winners = [], winnerBonuses = Map.empty, revenges = rt \<rparr>
      (attacksByTarget ps)"

text \<open>\<open>results.find(pred)\<close> followed by an assignment to fields of the entry found.\<close>

fun updateFirst :: "('a \<Rightarrow> bool) \<Rightarrow> ('a \<Rightarrow> 'a) \<Rightarrow> 'a list \<Rightarrow> 'a list" where
  "updateFirst P f [] = []"
| "updateFirst P f (x # xs) = (if P x then f x # xs else x # updateFirst P f xs)"

text \<open>The session found for the winner of the first result that names \<open>loserId\<close> as
  its loser: \<open>winnerPlayer\<close> of the source.\<close>

definition winnerPlayerOf :: "player list \<Rightarrow> result list \<Rightarrow> string \<Rightarrow> player option" where
  "winnerPlayerOf ps rs loserId =
    (case find (\<lambda>r. loser r = Some loserId) rs of
       None \<Rightarrow> None
     | Some r \<Rightarrow> (case winner r of None \<Rightarrow> None | Some w \<Rightarrow> players_get ps w))"

text \<open>The fields reset on a loss.\<close>

definition resetLoser :: "player \<Rightarrow> player" where
  "resetLoser p =
    p\<lparr>streak := 0, inPit := False, action := None, actionTarget := None,
      actionTime := None, attackType := None\<rparr>"

text \<open>The body of the loop \<open>for (const loserId of losers)\<close>.\<close>

definition applyLoser ::
    "bool \<Rightarrow> int \<Rightarrow> pit_state \<times> result list \<Rightarrow> string \<Rightarrow> pit_state \<times> result list" where
  "applyLoser url now sr loserId =
    (case sr of (s, rs) \<Rightarrow>
      (case players_get (players s) loserId of
         None \<Rightarrow> (s, rs)
       | Some l \<Rightarrow>
          (let winnerPlayer = winnerPlayerOf (players s) rs loserId;
               rt = (case winnerPlayer of
                       None \<Rightarrow> revengeTargets s
                     | Some wp \<Rightarrow> (revengeTargets s)(odIdentifier l \<mapsto>
                          \<lparr> revengeOd = odIdentifier wp, expiresAt = now + 3 * 60 * 1000 \<rparr>));
               pts = max 0 (points l - 1);
               d1 = updatePlayerPoints url (odIdentifier l) pts (table s)
           in (case (if pts = 0 then winnerPlayer else None) of
                 None \<Rightarrow>
                   (s\<lparr>players := players_modify loserId
                                    (\<lambda>p. resetLoser (p\<lparr>points := pts\<rparr>)) (players s),
                      revengeTargets := rt, table := d1\<rparr>,
                    rs)
               | Some wp \<Rightarrow>
                   (s\<lparr>players := players_modify loserId
                                    (\<lambda>p. resetLoser (p\<lparr>points := pts, clanName := clanName wp\<rparr>))
                                    (players s),
                      revengeTargets := rt,
                      table := captureCharacter url (odIdentifier l) (clanName wp)
                                 (Some (odIdentifier wp)) d1\<rparr>,
                    updateFirst (\<lambda>r. loser r = Some loserId)
                      (\<lambda>r. r\<lparr>captured := True, capturedBy := Some (name wp)\<rparr>) rs)))))"

text \<open>The body of the loop \<open>for (const winnerId of winners)\<close>.\<close>

definition applyWinner ::
    "bool \<Rightarrow> string list \<Rightarrow> (string \<Rightarrow> int option) \<Rightarrow> pit_state \<times> result list \<Rightarrow> string
      \<Rightarrow> pit_state \<times> result list" where
  "applyWinner url ls bonuses sr winnerId =
    (case sr of (s, rs) \<Rightarrow>
      (case players_get (players s) winnerId of
         None \<Rightarrow> (s, rs)
       | Some w \<Rightarrow>
          if winnerId \<in> set ls then (s, rs)
          else
            (let bonus = bonusOf bonuses winnerId;
                 isRevengeKill = (bonus > 0);
                 pts = points w + (1 + bonus);
                 strk = streak w + 1;
                 drk = (if isRevengeKill then dailyRevengeKills w + 1 else dailyRevengeKills w);
                 dms = (if strk > dailyMaxStreak w then strk else dailyMaxStreak w);
                 d1 = updateDailyChallenge url (odIdentifier w) drk dms (table s);
                 d2 = updatePlayerPoints url (odIdentifier w) pts d1
             in (s\<lparr>players := players_modify winnerId
                      (\<lambda>p. p\<lparr>points := pts, streak := strk, dailyRevengeKills := drk,
                            dailyMaxStreak := dms, action := None, actionTarget := None,
                            actionTime := None, attackType := None, canHeckle := True\<rparr>)
                      (players s),
                    table := d2\<rparr>,
                 updateFirst (\<lambda>r. winner r = Some winnerId)
                   (\<lambda>r. r\<lparr>isStreakKill := Some (strk \<ge> 5),
                          isGangAttack := Some (reason r = ''gang attack'')\<rparr>) rs))))"

text \<open>
  \<open>processAllAttacks\<close>: \<open>url\<close> is \<open>process.env.DATABASE_URL\<close> as a truth value and \<open>now\<close>
  the value of \<open>Date.now()\<close> read at the start of the pass. The function returns the
  state after the pass and the \<open>results\<close> array.
\<close>

definition processAllAttacks :: "bool \<Rightarrow> int \<Rightarrow> pit_state \<Rightarrow> pit_state \<times> result list" where
  "processAllAttacks url now s =
    (let r = resolveAttacks now (players s) (revengeTargets s);
         sr1 = foldl (applyLoser url now) (s\<lparr>revengeTargets := revenges r\<rparr>, results r) (losers r)
     in foldl (applyWinner url (losers r) (winnerBonuses r)) sr1 (winners r))"

text \<open>The in-pit sessions whose attack is aimed at the key \<open>t\<close>, in map order.\<close>

definition attackersOf :: "player list \<Rightarrow> string \<Rightarrow> player list" where
  "attackersOf ps t = filter (\<lambda>p. attackOf p = Some t) ps"

text \<open>The points of the session stored under a key (0 when there is none).\<close>

definition pointsAt :: "pit_state \<Rightarrow> string \<Rightarrow> int" where
  "pointsAt s k = (case players_get (players s) k of None \<Rightarrow> 0 | Some p \<Rightarrow> points p)"

section \<open>State broadcaster\<close>

text \<open>
  An entry of the payload of \<open>getLeaderboard\<close>, and an entry of the payload of
  \<open>getPitPlayers\<close>, with the keys the source gives them. \<open>sort\<close> of the source is
  stable; it orders by points, highest first.
\<close>

record leaderboard_entry =
  lb_id :: string
  lb_odIdentifier :: string
  lb_name :: string
  lb_points :: int
  lb_streak :: int
  lb_inPit :: bool
  lb_characterImage :: int
  lb_clanName :: "string option"

definition leaderboardEntry :: "player \<Rightarrow> leaderboard_entry" where
  "leaderboardEntry p =
    \<lparr> lb_id = pid p, lb_odIdentifier = odIdentifier p, lb_name = name p, lb_points = points p,
      lb_streak = streak p, lb_inPit = inPit p, lb_characterImage = characterImage p,
      lb_clanName = clanName p \<rparr>"

definition getLeaderboard :: "player list \<Rightarrow> leaderboard_entry list" where
  "getLeaderboard ps = map leaderboardEntry (sort_key (\<lambda>p. - points p) ps)"

record pit_entry =
  pe_id :: string
  pe_odIdentifier :: string
  pe_name :: string
  pe_points :: int
  pe_streak :: int
  pe_characterImage :: int
  pe_action :: string
  pe_isRevenge :: bool

definition getPitPlayers ::
    "int \<Rightarrow> player list \<Rightarrow> (string \<Rightarrow> revenge option) \<Rightarrow> string \<Rightarrow> pit_entry list" where
  "getPitPlayers now ps rt requestingPlayerId =
    (let myRevengeTarget = (case players_get ps requestingPlayerId of
                              None \<Rightarrow> None
                            | Some me \<Rightarrow> rt (odIdentifier me));
         isMyRevenge = (case myRevengeTarget of
                          None \<Rightarrow> None
                        | Some r \<Rightarrow> if expiresAt r > now then Some (revengeOd r) else None)
     in map (\<lambda>p. \<lparr> pe_id = pid p, pe_odIdentifier = odIdentifier p, pe_name = name p,
                    pe_points = points p, pe_streak = streak p,
                    pe_characterImage = characterImage p,
                    pe_action = (case action p of
                                   None \<Rightarrow> ''idle''
                                 | Some Defend \<Rightarrow> ''defending''
                                 | Some Attack \<Rightarrow> ''attacking''),
                    pe_isRevenge = (Some (odIdentifier p) = isMyRevenge) \<rparr>)
           (filter inPit ps))"

section \<open>Clan battle engine\<close>

text \<open>
  A roster entry as \<open>getClanMembers\<close> returns it (the duplicated keys \<open>odIdentifier\<close> and
  \<open>characterImage\<close> hold the same values as \<open>od_identifier\<close> and \<open>character_image\<close>).
\<close>

record member =
  od_identifier :: string
  member_name :: string
  member_points :: int
  character_image :: int
  player_number :: int

text \<open>One entry of the \<open>results\<close> of a round: the two fighters, and \<open>{id, name}\<close> of the
  winner and of the loser.\<close>

record duel =
  fighterA :: member
  fighterB :: member
  duelWinner :: "string \<times> string"
  duelLoser :: "string \<times> string"
  duelAttackType :: attack_type

text \<open>
  The random source of one round: the two shuffled copies of the rosters (the result of
  \<open>sort\<close> with a random comparator) and, for the duel at index \<open>i\<close>, the value
  \<open>coin i\<close> of \<open>Math.random()\<close> read for its attack type.
\<close>

record round_random =
  shuffledA :: "member list"
  shuffledB :: "member list"
  coin :: "nat \<Rightarrow> real"

definition fight :: "member \<Rightarrow> member \<Rightarrow> real \<Rightarrow> duel" where
  "fight fa fb c =
    (let ty = (if c < 1/2 then Distance else Melee);
         aWins = (if ty = Distance then player_number fa \<ge> player_number fb
                  else player_number fa \<le> player_number fb);
         w = (if aWins then fa else fb);
         l = (if aWins then fb else fa)
     in \<lparr> fighterA = fa, fighterB = fb,
          duelWinner = (od_identifier w, member_name w),
          duelLoser = (od_identifier l, member_name l),
          duelAttackType = ty \<rparr>)"

text \<open>The loop \<open>for (let i = 0; i < minSize; i++)\<close> of \<open>executeClanBattleRound\<close>; the
  function returns the results and the fighters left without an opponent.\<close>

definition executeClanBattleRound ::
    "member list \<Rightarrow> member list \<Rightarrow> round_random \<Rightarrow> duel list \<times> member list \<times> member list" where
  "executeClanBattleRound clanAMembers clanBMembers rnd =
    (let minSize = min (length clanAMembers) (length clanBMembers)
     in (map (\<lambda>i. fight (shuffledA rnd ! i) (shuffledB rnd ! i) (coin rnd i)) [0..<minSize],
         drop minSize (shuffledA rnd),
         drop minSize (shuffledB rnd)))"

text \<open>
  \<open>pointChanges\<close> is a plain object \<open>{}\<close>: its own properties in creation order, over
  \<open>Object.prototype\<close>. A value is a number, or a string once \<open>+\<close> has concatenated.
  Reading a key that is not an own property finds the property of that name of
  \<open>Object.prototype\<close>, if there is one: a built-in method (a function, truthy, converted
  to a string by \<open>+\<close>), or the accessor \<open>__proto__\<close>, whose value is \<open>Object.prototype\<close>
  itself and whose setter ignores a value that is not an object.
\<close>

datatype change = Num int | Str string

datatype inherited = Method string | ProtoAccessor

definition objectPrototype :: "string \<Rightarrow> inherited option" where
  "objectPrototype k =
    (if k = ''constructor'' then Some (Method ''Object'')
     else if k \<in> set [''__defineGetter__'', ''__defineSetter__'', ''hasOwnProperty'',
                       ''__lookupGetter__'', ''__lookupSetter__'', ''isPrototypeOf'',
                       ''propertyIsEnumerable'', ''toString'', ''valueOf'', ''toLocaleString'']
     then Some (Method k)
     else if k = ''__proto__'' then Some ProtoAccessor
     else None)"

text \<open>The string that \<open>+\<close> makes of a built-in function, and of an integer.\<close>

definition functionText :: "string \<Rightarrow> string" where
  "functionText n = ''function '' @ n @ ''() { [native code] }''"

fun showNat :: "nat \<Rightarrow> string" where
  "showNat n = (if n < 10 then [char_of (48 + n)]
                else showNat (n div 10) @ [char_of (48 + n mod 10)])"

declare showNat.simps [simp del]

definition showInt :: "int \<Rightarrow> string" where
  "showInt i = (if i < 0 then CHR ''-'' # showNat (nat (- i)) else showNat (nat i))"

text \<open>\<open>(v || 0) + d\<close> for the value \<open>v\<close> of an own property: 0 and the empty string are
  falsy.\<close>

definition added :: "change \<Rightarrow> int \<Rightarrow> change" where
  "added v d =
    (case v of
       Num n \<Rightarrow> Num ((if n = 0 then 0 else n) + d)
     | Str s \<Rightarrow> if s = [] then Num (0 + d) else Str (s @ showInt d))"

text \<open>\<open>pointChanges[k] = (pointChanges[k] || 0) + d\<close>.\<close>

fun addChange :: "string \<Rightarrow> int \<Rightarrow> (string \<times> change) list \<Rightarrow> (string \<times> change) list" where
  "addChange k d [] =
     (case objectPrototype k of
        None \<Rightarrow> [(k, Num (0 + d))]
      | Some (Method n) \<Rightarrow> [(k, Str (functionText n @ showInt d))]
      | Some ProtoAccessor \<Rightarrow> [])"
| "addChange k d ((k', v) # xs) =
     (if k' = k then (k', added v d) # xs else (k', v) # addChange k d xs)"

text \<open>
  \<open>Object.entries\<close>: the keys that are array indices (the decimal form, without leading
  zeros, of an integer up to \<open>2^32 - 2\<close>) come first, in ascending numeric order, then
  the other keys in creation order.
\<close>

definition digitValue :: "char \<Rightarrow> nat option" where
  "digitValue c = (if c \<in> set ''0123456789'' then Some (of_char c - 48) else None)"

fun parseDigits :: "string \<Rightarrow> nat \<Rightarrow> nat option" where
  "parseDigits [] acc = Some acc"
| "parseDigits (c # cs) acc =
     (case digitValue c of None \<Rightarrow> None | Some v \<Rightarrow> parseDigits cs (10 * acc + v))"

definition arrayIndex :: "string \<Rightarrow> nat option" where
  "arrayIndex k =
    (if k = [] \<or> (hd k = CHR ''0'' \<and> k \<noteq> ''0'') then None
     else (case parseDigits k 0 of
             None \<Rightarrow> None
           | Some n \<Rightarrow> if n \<le> 4294967294 then Some n else None))"

definition indexOrZero :: "string \<Rightarrow> nat" where
  "indexOrZero k = (case arrayIndex k of None \<Rightarrow> 0 | Some n \<Rightarrow> n)"

definition entries :: "(string \<times> 'v) list \<Rightarrow> (string \<times> 'v) list" where
  "entries obj =
    sort_key (\<lambda>kv. indexOrZero (fst kv)) (filter (\<lambda>kv. arrayIndex (fst kv) \<noteq> None) obj) @
    filter (\<lambda>kv. arrayIndex (fst kv) = None) obj"

text \<open>The \<open>clanBattleRound\<close> event emitted after each round.\<close>

record round_event =
  round :: nat
  roundResults :: "duel list"
  roundWinner :: string
  roundScoreA :: nat
  roundScoreB :: nat
  overallScoreA :: nat
  overallScoreB :: nat

record battle_state =
  clanAWins :: nat
  clanBWins :: nat
  pointChanges :: "(string \<times> change) list"
  events :: "round_event list"

text \<open>The inner loop over the results of a round: count the duel wins of each clan and
  track the point changes.\<close>

fun countRound :: "member list \<Rightarrow> duel list \<Rightarrow> nat \<times> nat \<times> (string \<times> change) list
                    \<Rightarrow> nat \<times> nat \<times> (string \<times> change) list" where
  "countRound clanAMembers [] acc = acc"
| "countRound clanAMembers (r # rs) (roundAWins, roundBWins, pc) =
     (let winnerFromClanA = find (\<lambda>m. od_identifier m = fst (duelWinner r)) clanAMembers;
          a = (if winnerFromClanA \<noteq> None then roundAWins + 1 else roundAWins);
          b = (if winnerFromClanA \<noteq> None then roundBWins else roundBWins + 1);
          pc1 = addChange (fst (duelWinner r)) 1 pc;
          pc2 = addChange (fst (duelLoser r)) (-1) pc1
      in countRound clanAMembers rs (a, b, pc2))"

text \<open>The body of the round loop of the \<open>startClanBattle\<close> handler, after its
  \<open>break\<close> test.\<close>

definition playRound ::
    "string \<Rightarrow> string \<Rightarrow> member list \<Rightarrow> member list \<Rightarrow> nat \<Rightarrow> round_random
      \<Rightarrow> battle_state \<Rightarrow> battle_state" where
  "playRound challenger defenderClan clanAMembers clanBMembers roundNum rnd st =
    (let res = fst (executeClanBattleRound clanAMembers clanBMembers rnd);
         (roundAWins, roundBWins, pc) = countRound clanAMembers res (0, 0, pointChanges st);
         a = (if roundAWins > roundBWins then clanAWins st + 1 else clanAWins st);
         b = (if roundAWins > roundBWins then clanBWins st
              else if roundBWins > roundAWins then clanBWins st + 1 else clanBWins st)
     in \<lparr> clanAWins = a, clanBWins = b, pointChanges = pc,
          events = events st @
            [\<lparr> round = roundNum, roundResults = res,
               roundWinner = (if roundAWins > roundBWins then challenger
                              else if roundBWins > roundAWins then defenderClan else ''TIE''),
               roundScoreA = roundAWins, roundScoreB = roundBWins,
               overallScoreA = a, overallScoreB = b \<rparr>] \<rparr>)"

definition maxRounds :: nat where
  "maxRounds = 3"

text \<open>The loop \<open>for (let roundNum = 1; roundNum <= maxRounds; roundNum++)\<close>; \<open>rnds\<close>
  gives the random source of each round number.\<close>

function roundLoop ::
    "string \<Rightarrow> string \<Rightarrow> member list \<Rightarrow> member list \<Rightarrow> (nat \<Rightarrow> round_random) \<Rightarrow> nat
      \<Rightarrow> battle_state \<Rightarrow> battle_state" where
  "roundLoop challenger defenderClan clanAMembers clanBMembers rnds roundNum st =
    (if roundNum \<le> maxRounds then
       (if clanAWins st \<ge> 2 \<or> clanBWins st \<ge> 2 then st
        else roundLoop challenger defenderClan clanAMembers clanBMembers rnds (roundNum + 1)
               (playRound challenger defenderClan clanAMembers clanBMembers roundNum
                  (rnds roundNum) st))
     else st)"
  by pat_completeness auto
termination
  by (relation "measure (\<lambda>(c, d, a, b, r, n, s). Suc maxRounds - n)") auto

declare roundLoop.simps [simp del]

text \<open>
  The settlement loop over \<open>Object.entries(pointChanges)\<close>:
  \<open>UPDATE players SET points = GREATEST(0, points + change)\<close>, and a pending capture for
  a row that reaches 0 on the losing team. The query is not inside a \<open>try\<close>: when the
  change is a string, which the database cannot read as an integer, the query is
  rejected and the handler ends there, with the rows updated so far.
\<close>

datatype error = QueryError

record capture =
  capturedId :: string
  capturedName :: string
  fromClan :: string
  newClan :: string

fun applyPointChanges ::
    "bool \<Rightarrow> string \<Rightarrow> string \<Rightarrow> (string \<times> change) list \<Rightarrow> db \<times> capture list
      \<Rightarrow> db \<times> (error + capture list)" where
  "applyPointChanges url loserClan winnerClan [] (d, pendingCaptures) = (d, Inr pendingCaptures)"
| "applyPointChanges url loserClan winnerClan ((odId, change) # rest) (d, pendingCaptures) =
     (if \<not> url then applyPointChanges url loserClan winnerClan rest (d, pendingCaptures)
      else (case change of
              Str s \<Rightarrow> (d, Inl QueryError)
            | Num c \<Rightarrow>
               (case d odId of
                  None \<Rightarrow> applyPointChanges url loserClan winnerClan rest (d, pendingCaptures)
                | Some r \<Rightarrow>
                    (let r' = r\<lparr>row_points := max 0 (row_points r + c)\<rparr>;
                         d' = d(odId \<mapsto> r')
                     in applyPointChanges url loserClan winnerClan rest
                          (d', if row_points r' \<le> 0 \<and> clan_name r' = Some loserClan
                               then pendingCaptures @
                                      [\<lparr> capturedId = odId, capturedName = row_name r',
                                         fromClan = loserClan, newClan = winnerClan \<rparr>]
                               else pendingCaptures)))))"

record battle =
  challenger_clan :: string
  defender_clan :: string

text \<open>The \<open>clanBattleComplete\<close> event, emitted when the settlement went through.\<close>

record battle_complete =
  winnerClan :: string
  finalScoreA :: nat
  finalScoreB :: nat
  totalCaptures :: "capture list"

record battle_outcome =
  roundEvents :: "round_event list"
  appliedChanges :: "(string \<times> change) list"
  finalDb :: db
  completion :: "error + battle_complete"

text \<open>
  The \<open>startClanBattle\<close> handler from the point where the battle is known to be ready:
  the two roster snapshots and the two clan creators have been read. The outcome holds
  the round events emitted, the object \<open>pointChanges\<close>, the table as the handler leaves
  it, and the completion event or the error that ended the handler.
\<close>

definition startClanBattle ::
    "bool \<Rightarrow> battle \<Rightarrow> member list \<Rightarrow> member list \<Rightarrow> string option \<Rightarrow> string option
      \<Rightarrow> (nat \<Rightarrow> round_random) \<Rightarrow> db \<Rightarrow> battle_outcome" where
  "startClanBattle url b clanAMembers clanBMembers clanACreator clanBCreator rnds d =
    (let st = roundLoop (challenger_clan b) (defender_clan b) clanAMembers clanBMembers rnds 1
                \<lparr> clanAWins = 0, clanBWins = 0, pointChanges = [], events = [] \<rparr>;
         wClan = (if clanAWins st \<ge> clanBWins st then challenger_clan b else defender_clan b);
         winnerCreator = (if clanAWins st \<ge> clanBWins st then clanACreator else clanBCreator);
         loserClan = (if wClan = challenger_clan b then defender_clan b else challenger_clan b);
         settled = applyPointChanges url loserClan wClan (entries (pointChanges st)) (d, [])
     in \<lparr> roundEvents = events st,
          appliedChanges = pointChanges st,
          finalDb = (case snd settled of
                       Inl e \<Rightarrow> fst settled
                     | Inr pendingCaptures \<Rightarrow>
                         foldl (\<lambda>dd c. captureCharacter url (capturedId c) (Some wClan)
                                          winnerCreator dd)
                           (fst settled) pendingCaptures),
          completion = (case snd settled of
                          Inl e \<Rightarrow> Inl e
                        | Inr pendingCaptures \<Rightarrow>
                            Inr \<lparr> winnerClan = wClan, finalScoreA = clanAWins st,
                                  finalScoreB = clanBWins st,
                                  totalCaptures = pendingCaptures \<rparr>) \<rparr>)"








text \<open>Concrete rosters, for the closed instances below.\<close>

definition mkMember :: "string \<Rightarrow> int \<Rightarrow> int \<Rightarrow> member" where
  "mkMember i pts num =
    \<lparr> od_identifier = i, member_name = i, member_points = pts, character_image = 1,
      player_number = num \<rparr>"

definition mkRow :: "string \<Rightarrow> int \<Rightarrow> int \<Rightarrow> string \<Rightarrow> db_row" where
  "mkRow i pts num clan =
    \<lparr> row_name = i, row_points = pts, row_player_number = num, row_character_image = 1,
      clan_name = Some clan, owner_id = None, daily_revenge_kills = 0, daily_max_streak = 0 \<rparr>"


definition exRosterB :: "member list" where
  "exRosterB = [mkMember ''b'' 0 1]"

definition exBattle :: battle where
  "exBattle = \<lparr> challenger_clan = ''A'', defender_clan = ''B'' \<rparr>"


definition exTable :: "int \<Rightarrow> db" where
  "exTable ptsB = [''a'' \<mapsto> mkRow ''a'' 3 9 ''A'', ''b'' \<mapsto> mkRow ''b'' ptsB 1 ''B'']"

definition exPairsA :: "member list" where
  "exPairsA = [mkMember ''a1'' 3 9, mkMember ''a2'' 3 1]"

definition exPairsB :: "member list" where
  "exPairsB = [mkMember ''b1'' 3 5, mkMember ''b2'' 3 5]"

definition exPairsRandom :: "nat \<Rightarrow> round_random" where
  "exPairsRandom n = \<lparr> shuffledA = exPairsA, shuffledB = exPairsB, coin = (\<lambda>i. 3/10) \<rparr>"

definition exFourA :: "member list" where
  "exFourA = [mkMember ''a1'' 3 90, mkMember ''a2'' 3 80, mkMember ''a3'' 3 70,
              mkMember ''a4'' 3 60]"

definition exThreeB :: "member list" where
  "exThreeB = [mkMember ''b1'' 3 10, mkMember ''b2'' 3 20, mkMember ''b3'' 3 30]"

definition exFourRandom :: "nat \<Rightarrow> round_random" where
  "exFourRandom n = \<lparr> shuffledA = exFourA, shuffledB = exThreeB, coin = (\<lambda>i. 3/10) \<rparr>"

text \<open>A roster whose member took the identifier \<open>constructor\<close>.\<close>

definition exCtorA :: "member list" where
  "exCtorA = [mkMember ''constructor'' 3 9]"

definition exCtorRandom :: "nat \<Rightarrow> round_random" where
  "exCtorRandom n = \<lparr> shuffledA = exCtorA, shuffledB = exRosterB, coin = (\<lambda>i. 3/10) \<rparr>"

text \<open>What a result says about who won, and the invariant of the resolution loop used
  in the proofs below: every result names a winner that has a session, and every loser
  has a session and a result that names it.\<close>

definition outcome :: "result \<Rightarrow> string option \<times> string option \<times> string" where
  "outcome r = (winner r, loser r, reason r)"

definition resolved :: "player list \<Rightarrow> result list \<Rightarrow> string list \<Rightarrow> bool" where
  "resolved ps rs ls =
    ((\<forall>e \<in> set rs. \<exists>w. winner e = Some w \<and> w \<in> pid ` set ps) \<and>
     (\<forall>l \<in> set ls. l \<in> pid ` set ps \<and> (\<exists>e \<in> set rs. loser e = Some l)))"

text \<open>The sessions with their draw numbers replaced.\<close>

definition renumber :: "(player \<Rightarrow> int) \<Rightarrow> player list \<Rightarrow> player list" where
  "renumber f ps = map (\<lambda>p. p\<lparr>playerNumber := f p\<rparr>) ps"

text \<open>Concrete states of the pit, for the closed instances below. In \<open>exGang\<close> the
  sessions A and B attack T, and A holds a revenge claim on T; in \<open>exDouble\<close> A and B
  attack X while X and Z attack Y; in \<open>exDuel\<close> a attacks the idle b.\<close>

definition exGang :: "int \<Rightarrow> pit_state" where
  "exGang pts =
    \<lparr> players = [mkPlayer ''T'' pts 50,
                 (attacking (mkPlayer ''A'' 10 20) ''T'' Distance 1)\<lparr>clanName := Some ''Wolves''\<rparr>,
                 attacking (mkPlayer ''B'' 10 80) ''T'' Melee 2],
      revengeTargets = [''od_A'' \<mapsto> \<lparr> revengeOd = ''od_T'', expiresAt = 5000 \<rparr>],
      table = [''od_T'' \<mapsto> mkRow ''T'' pts 50 ''Bears''] \<rparr>"

definition exDouble :: pit_state where
  "exDouble =
    \<lparr> players = [attacking (mkPlayer ''A'' 10 50) ''X'' Distance 1,
                 attacking (mkPlayer ''B'' 10 50) ''X'' Melee 2,
                 attacking (mkPlayer ''X'' 10 50) ''Y'' Distance 3,
                 attacking (mkPlayer ''Z'' 10 50) ''Y'' Distance 4,
                 mkPlayer ''Y'' 10 50],
      revengeTargets = Map.empty, table = Map.empty \<rparr>"

definition exDuel :: "int \<Rightarrow> pit_state" where
  "exDuel n =
    \<lparr> players = [attacking (mkPlayer ''a'' 10 n) ''b'' Distance 1, mkPlayer ''b'' 10 7],
      revengeTargets = Map.empty, table = Map.empty \<rparr>"

text \<open>Invariants of the round loop, used in the proofs below: what one round adds to the
  state, and what the tracked point changes are.\<close>

definition roundOk ::
    "string \<Rightarrow> string \<Rightarrow> nat \<Rightarrow> member list \<Rightarrow> member list \<Rightarrow> battle_state \<Rightarrow> battle_state
      \<Rightarrow> round_event \<Rightarrow> bool" where
  "roundOk ch df n A B st st' ev =
    (events st' = events st @ [ev] \<and>
     round ev = n \<and>
     roundWinner ev = (if roundScoreA ev > roundScoreB ev then ch
                       else if roundScoreB ev > roundScoreA ev then df else ''TIE'') \<and>
     length (roundResults ev) = min (length A) (length B) \<and>
     roundScoreA ev + roundScoreB ev = min (length A) (length B) \<and>
     roundScoreA ev =
       length (filter (\<lambda>r. fst (duelWinner r) \<in> set (map od_identifier A)) (roundResults ev)) \<and>
     overallScoreA ev = clanAWins st' \<and> overallScoreB ev = clanBWins st' \<and>
     clanAWins st' = clanAWins st + (if roundScoreA ev > roundScoreB ev then 1 else 0) \<and>
     clanBWins st' = clanBWins st + (if roundScoreB ev > roundScoreA ev then 1 else 0))"




section \<open>Theorems\<close>

subsection \<open>Draw numbers\<close>

text \<open>
  C9 (as amended). For every value \<open>r\<close> of the random source, \<open>0 \<le> r < 1\<close>, the generated
  player number \<open>n\<close> satisfies \<open>0 \<le> n \<le> 99\<close>: the range is the hundred values 0..99, as
  the comment above the function says, not 0..98.
\<close>

theorem generatePlayerNumber_range:
  assumes "0 \<le> r" and "r < 1"
  shows "0 \<le> generatePlayerNumber r \<and> generatePlayerNumber r \<le> 99"
proof -
  have "0 \<le> r * 100" using assms(1) by simp
  then have lo: "0 \<le> \<lfloor>r * 100\<rfloor>" by simp
  have "r * 100 < 100" using assms(2) by simp
  then have "\<lfloor>r * 100\<rfloor> < 100" by (simp add: floor_less_iff)
  then show ?thesis using lo by (simp add: generatePlayerNumber_def)
qed

theorem generatePlayerNumber_range_witness:
  "(0::real) \<le> 1/2 \<and> (1/2::real) < 1 \<and>
   0 \<le> generatePlayerNumber (1/2) \<and> generatePlayerNumber (1/2) \<le> 99"
  using generatePlayerNumber_range [of "1/2"] by simp

text \<open>
  C9 as stated (\<open>n \<le> 98\<close>) fails: the random value 0.995 lies in \<open>[0,1)\<close> and yields 99.
\<close>

theorem generatePlayerNumber_99:
  "(0::real) \<le> 995/1000 \<and> (995/1000::real) < 1 \<and> \<not> generatePlayerNumber (995/1000) \<le> 98"
proof -
  have "\<lfloor>(199::real) / 2\<rfloor> = 99" by (simp add: floor_eq_iff)
  then show ?thesis by (simp add: generatePlayerNumber_def)
qed

subsection \<open>Mutual duels\<close>

text \<open>
  C3. In a mutual duel (the target's action is an attack aimed at the attacker), a
  distance attacker beats a melee target and a distance target beats a melee attacker,
  whatever the draw numbers are; when both chose the same attack type, the side whose
  action timestamp is strictly earlier wins, with reason "faster draw".
\<close>

theorem mutual_duel:
  assumes "action tgt = Some Attack" and "actionTarget tgt = Some (pid att)"
  shows "(attackType att = Some Distance \<and> attackType tgt = Some Melee \<longrightarrow>
            winner (determineWinner att tgt) = Some (pid att) \<and>
            loser (determineWinner att tgt) = Some (pid tgt) \<and>
            reason (determineWinner att tgt) = ''distance beats melee'') \<and>
         (attackType att = Some Melee \<and> attackType tgt = Some Distance \<longrightarrow>
            winner (determineWinner att tgt) = Some (pid tgt) \<and>
            loser (determineWinner att tgt) = Some (pid att) \<and>
            reason (determineWinner att tgt) = ''distance beats melee'') \<and>
         (attackType att = attackType tgt \<and> actionTime att = Some ta \<and>
          actionTime tgt = Some tt \<and> ta < tt \<longrightarrow>
            winner (determineWinner att tgt) = Some (pid att) \<and>
            loser (determineWinner att tgt) = Some (pid tgt) \<and>
            reason (determineWinner att tgt) = ''faster draw'') \<and>
         (attackType att = attackType tgt \<and> actionTime att = Some ta \<and>
          actionTime tgt = Some tt \<and> tt < ta \<longrightarrow>
            winner (determineWinner att tgt) = Some (pid tgt) \<and>
            loser (determineWinner att tgt) = Some (pid att) \<and>
            reason (determineWinner att tgt) = ''faster draw'')"
  using assms by (auto simp: determineWinner_def Let_def js_lt_def toNumber_def)

theorem mutual_duel_witness:
  "winner (determineWinner (attacking (mkPlayer ''a'' 10 5) ''b'' Distance 200)
                           (attacking (mkPlayer ''b'' 10 90) ''a'' Melee 100)) = Some ''a'' \<and>
   reason (determineWinner (attacking (mkPlayer ''a'' 10 5) ''b'' Distance 200)
                           (attacking (mkPlayer ''b'' 10 90) ''a'' Melee 100))
     = ''distance beats melee'' \<and>
   winner (determineWinner (attacking (mkPlayer ''a'' 10 5) ''b'' Melee 100)
                           (attacking (mkPlayer ''b'' 10 90) ''a'' Melee 200)) = Some ''a'' \<and>
   reason (determineWinner (attacking (mkPlayer ''a'' 10 5) ''b'' Melee 100)
                           (attacking (mkPlayer ''b'' 10 90) ''a'' Melee 200)) = ''faster draw''"
  using mutual_duel [of "attacking (mkPlayer ''b'' 10 90) ''a'' Melee 100"
                        "attacking (mkPlayer ''a'' 10 5) ''b'' Distance 200" 200 100]
        mutual_duel [of "attacking (mkPlayer ''b'' 10 90) ''a'' Melee 200"
                        "attacking (mkPlayer ''a'' 10 5) ''b'' Melee 100" 100 200]
  by (simp add: attacking_def mkPlayer_def)

text \<open>
  C10. In a mutual duel where both sides declared the same attack type, the attacker
  argument wins exactly when its timestamp is strictly earlier; otherwise, and so also
  when the two timestamps are equal, the target argument wins. The reason is
  "faster draw" either way.
\<close>

theorem mutual_duel_equal_timestamps:
  assumes "action tgt = Some Attack" and "actionTarget tgt = Some (pid att)"
    and "attackType att = attackType tgt"
    and "actionTime att = Some ta" and "actionTime tgt = Some tt"
  shows "winner (determineWinner att tgt) = Some (if ta < tt then pid att else pid tgt) \<and>
         loser (determineWinner att tgt) = Some (if ta < tt then pid tgt else pid att) \<and>
         reason (determineWinner att tgt) = ''faster draw'' \<and>
         (ta = tt \<longrightarrow> winner (determineWinner att tgt) = Some (pid tgt) \<and>
                      loser (determineWinner att tgt) = Some (pid att))"
  using assms by (auto simp: determineWinner_def Let_def js_lt_def toNumber_def)

theorem mutual_duel_equal_timestamps_witness:
  "winner (determineWinner (attacking (mkPlayer ''a'' 10 5) ''b'' Melee 100)
                           (attacking (mkPlayer ''b'' 10 90) ''a'' Melee 100)) = Some ''b'' \<and>
   loser (determineWinner (attacking (mkPlayer ''a'' 10 5) ''b'' Melee 100)
                          (attacking (mkPlayer ''b'' 10 90) ''a'' Melee 100)) = Some ''a'' \<and>
   reason (determineWinner (attacking (mkPlayer ''a'' 10 5) ''b'' Melee 100)
                           (attacking (mkPlayer ''b'' 10 90) ''a'' Melee 100)) = ''faster draw''"
  using mutual_duel_equal_timestamps
          [of "attacking (mkPlayer ''b'' 10 90) ''a'' Melee 100"
              "attacking (mkPlayer ''a'' 10 5) ''b'' Melee 100" 100 100]
  by (simp add: attacking_def mkPlayer_def)

subsection \<open>Duels against a defending or idle target\<close>

text \<open>
  C4. When the target is defending or idle (its action is not an attack), the draw
  numbers decide: a distance attacker wins if and only if its number is greater than or
  equal to the target's, a melee attacker wins if and only if its number is less than or
  equal to the target's, and on equal numbers the attacker wins with the reason
  "tie - attacker wins", which contains "tie".
\<close>

theorem idle_target_numbers:
  assumes "action tgt \<noteq> Some Attack"
  shows "(attackType att = Some Distance \<longrightarrow>
            winner (determineWinner att tgt) =
              Some (if playerNumber att \<ge> playerNumber tgt then pid att else pid tgt) \<and>
            loser (determineWinner att tgt) =
              Some (if playerNumber att \<ge> playerNumber tgt then pid tgt else pid att)) \<and>
         (attackType att = Some Melee \<longrightarrow>
            winner (determineWinner att tgt) =
              Some (if playerNumber att \<le> playerNumber tgt then pid att else pid tgt) \<and>
            loser (determineWinner att tgt) =
              Some (if playerNumber att \<le> playerNumber tgt then pid tgt else pid att)) \<and>
         (attackType att \<noteq> None \<and> playerNumber att = playerNumber tgt \<longrightarrow>
            winner (determineWinner att tgt) = Some (pid att) \<and>
            loser (determineWinner att tgt) = Some (pid tgt) \<and>
            reason (determineWinner att tgt) = ''tie - attacker wins'' \<and>
            sublist ''tie'' (reason (determineWinner att tgt)))"
proof -
  have tie: "sublist ''tie'' ''tie - attacker wins''"
    by (rule prefix_imp_sublist) (simp add: prefix_def)
  show ?thesis
    using assms tie by (cases "attackType att") (auto simp: determineWinner_def Let_def)
qed

theorem idle_target_numbers_witness:
  "winner (determineWinner (attacking (mkPlayer ''a'' 10 42) ''b'' Distance 100)
                           (mkPlayer ''b'' 10 42)) = Some ''a'' \<and>
   reason (determineWinner (attacking (mkPlayer ''a'' 10 42) ''b'' Distance 100)
                           (mkPlayer ''b'' 10 42)) = ''tie - attacker wins'' \<and>
   sublist ''tie'' (reason (determineWinner (attacking (mkPlayer ''a'' 10 42) ''b'' Distance 100)
                                             (mkPlayer ''b'' 10 42)))"
  using idle_target_numbers [of "mkPlayer ''b'' 10 42"
                                "attacking (mkPlayer ''a'' 10 42) ''b'' Distance 100"]
  by (simp add: attacking_def mkPlayer_def)

subsection \<open>Clan battle series\<close>

lemma length_executeClanBattleRound:
  "length (fst (executeClanBattleRound A B rnd)) = min (length A) (length B)"
  by (simp add: executeClanBattleRound_def Let_def)

lemma find_member_iff:
  "(find (\<lambda>m. od_identifier m = k) A \<noteq> None) = (k \<in> set (map od_identifier A))"
  by (induction A) auto

lemma countRound_total:
  "countRound A rs (a, b, pc) = (a', b', pc') \<Longrightarrow>
     a' + b' = a + b + length rs \<and>
     a' = a + length (filter (\<lambda>r. fst (duelWinner r) \<in> set (map od_identifier A)) rs)"
proof (induction rs arbitrary: a b pc)
  case Nil
  then show ?case by simp
next
  case (Cons r rs)
  let ?pc2 = "addChange (fst (duelLoser r)) (-1) (addChange (fst (duelWinner r)) 1 pc)"
  show ?case
  proof (cases "find (\<lambda>m. od_identifier m = fst (duelWinner r)) A = None")
    case True
    have nin: "fst (duelWinner r) \<notin> set (map od_identifier A)"
      using True find_member_iff[of "fst (duelWinner r)" A] by simp
    have step: "countRound A rs (a, b + 1, ?pc2) = (a', b', pc')"
      using Cons.prems True by (simp add: Let_def)
    show ?thesis using Cons.IH[OF step] nin by simp
  next
    case False
    have isin: "fst (duelWinner r) \<in> set (map od_identifier A)"
      using False find_member_iff[of "fst (duelWinner r)" A] by simp
    have step: "countRound A rs (a + 1, b, ?pc2) = (a', b', pc')"
      using Cons.prems False by (simp add: Let_def)
    show ?thesis using Cons.IH[OF step] isin by simp
  qed
qed

lemma playRound_events: "\<exists>ev. roundOk ch df n A B st (playRound ch df A B n rnd st) ev"
proof -
  obtain a b pc where
    c: "countRound A (fst (executeClanBattleRound A B rnd)) (0, 0, pointChanges st) = (a, b, pc)"
    by (metis prod_cases3)
  have "a + b = min (length A) (length B)"
    and "a = length (filter (\<lambda>r. fst (duelWinner r) \<in> set (map od_identifier A))
                      (fst (executeClanBattleRound A B rnd)))"
    using countRound_total[OF c] by (simp_all add: length_executeClanBattleRound)
  then show ?thesis
    by (simp add: roundOk_def playRound_def Let_def c length_executeClanBattleRound)
qed

lemma roundLoop_stop:
  "maxRounds < n \<or> clanAWins st \<ge> 2 \<or> clanBWins st \<ge> 2 \<Longrightarrow>
     roundLoop ch df A B rnds n st = st"
  by (subst roundLoop.simps) auto

lemma roundLoop_step:
  "n \<le> maxRounds \<Longrightarrow> clanAWins st < 2 \<Longrightarrow> clanBWins st < 2 \<Longrightarrow>
     roundLoop ch df A B rnds n st =
       roundLoop ch df A B rnds (Suc n) (playRound ch df A B n (rnds n) st)"
  by (subst roundLoop.simps) auto

lemmas battle_defs = startClanBattle_def roundLoop.simps maxRounds_def playRound_def
  executeClanBattleRound_def fight_def mkMember_def objectPrototype_def Let_def case_prod_beta

lemma exPairs_events:
  "map (\<lambda>e. (round e, roundWinner e, roundScoreA e, roundScoreB e, overallScoreA e,
             overallScoreB e))
     (roundEvents (startClanBattle True exBattle exPairsA exPairsB None None exPairsRandom
                     (exTable 5)))
   = [(1, ''TIE'', 1, 1, 0, 0), (2, ''TIE'', 1, 1, 0, 0), (3, ''TIE'', 1, 1, 0, 0)]"
  by (simp add: battle_defs exPairsA_def exPairsB_def exBattle_def exPairsRandom_def)

lemma exFour_events:
  "map (\<lambda>e. (round e, roundWinner e, roundScoreA e, roundScoreB e, overallScoreA e,
             overallScoreB e))
     (roundEvents (startClanBattle True exBattle exFourA exThreeB None None exFourRandom
                     (exTable 5)))
   = [(1, ''A'', 3, 0, 1, 0), (2, ''A'', 3, 0, 2, 0)]"
  by (simp add: battle_defs exFourA_def exThreeB_def exBattle_def exFourRandom_def
        upt_rec[of 0] upt_rec[of 1] upt_rec[of 2])

text \<open>
  C6. For a clan battle between the roster snapshots \<open>A\<close> and \<open>B\<close>: a round holds exactly
  \<open>min |A| |B|\<close> duels, each won by one of the two clans, and the members of a roster
  beyond that number (the shuffle keeps the length of a roster) are returned as
  unbattled; the series has at most 3 rounds, numbered from 1; no round is played after
  a round that left a clan with 2 round wins, and the series goes on to the third round
  unless a clan has 2 round wins; a round adds one round win to the clan that won more
  of its duels, and a round whose duel wins are split equally is a "TIE" that leaves
  both clans' round wins as they were.
\<close>

theorem clan_battle_series:
  fixes url b A B ca cb rnds d
  defines "evs \<equiv> roundEvents (startClanBattle url b A B ca cb rnds d)"
  shows "length (fst (executeClanBattleRound A B rnd)) = min (length A) (length B) \<and>
         (length (shuffledA rnd) = length A \<and> length (shuffledB rnd) = length B \<longrightarrow>
            length (fst (snd (executeClanBattleRound A B rnd))) =
              length A - min (length A) (length B) \<and>
            length (snd (snd (executeClanBattleRound A B rnd))) =
              length B - min (length A) (length B)) \<and>
         length evs \<le> 3 \<and>
         (length evs = 3 \<or> overallScoreA (last evs) \<ge> 2 \<or> overallScoreB (last evs) \<ge> 2) \<and>
         (\<forall>i < length evs.
            length (roundResults (evs ! i)) = min (length A) (length B) \<and>
            roundScoreA (evs ! i) + roundScoreB (evs ! i) = min (length A) (length B) \<and>
            roundScoreA (evs ! i) =
              length (filter (\<lambda>r. fst (duelWinner r) \<in> set (map od_identifier A))
                        (roundResults (evs ! i)))) \<and>
         (\<forall>i. Suc i < length evs \<longrightarrow>
            overallScoreA (evs ! i) < 2 \<and> overallScoreB (evs ! i) < 2) \<and>
         (\<forall>i < length evs. roundScoreA (evs ! i) = roundScoreB (evs ! i) \<longrightarrow>
            overallScoreA (evs ! i) = (if i = 0 then 0 else overallScoreA (evs ! (i - 1))) \<and>
            overallScoreB (evs ! i) = (if i = 0 then 0 else overallScoreB (evs ! (i - 1)))) \<and>
         (\<forall>i < length evs.
            round (evs ! i) = i + 1 \<and>
            roundWinner (evs ! i) =
              (if roundScoreA (evs ! i) > roundScoreB (evs ! i) then challenger_clan b
               else if roundScoreB (evs ! i) > roundScoreA (evs ! i) then defender_clan b
               else ''TIE'') \<and>
            overallScoreA (evs ! i) =
              (if i = 0 then 0 else overallScoreA (evs ! (i - 1))) +
              (if roundScoreA (evs ! i) > roundScoreB (evs ! i) then 1 else 0) \<and>
            overallScoreB (evs ! i) =
              (if i = 0 then 0 else overallScoreB (evs ! (i - 1))) +
              (if roundScoreB (evs ! i) > roundScoreA (evs ! i) then 1 else 0))"
proof -
  let ?ch = "challenger_clan b" and ?df = "defender_clan b"
  let ?s0 = "\<lparr> clanAWins = 0, clanBWins = 0, pointChanges = [], events = [] \<rparr>"
  let ?s1 = "playRound ?ch ?df A B (Suc 0) (rnds (Suc 0)) ?s0"
  let ?s2 = "playRound ?ch ?df A B (Suc (Suc 0)) (rnds (Suc (Suc 0))) ?s1"
  let ?s3 = "playRound ?ch ?df A B (Suc (Suc (Suc 0))) (rnds (Suc (Suc (Suc 0)))) ?s2"
  let ?fin = "roundLoop ?ch ?df A B rnds (Suc 0) ?s0"
  let ?P = "\<lambda>es::round_event list.
         length es \<le> 3 \<and>
         (length es = 3 \<or> overallScoreA (last es) \<ge> 2 \<or> overallScoreB (last es) \<ge> 2) \<and>
         (\<forall>i < length es.
            length (roundResults (es ! i)) = min (length A) (length B) \<and>
            roundScoreA (es ! i) + roundScoreB (es ! i) = min (length A) (length B) \<and>
            roundScoreA (es ! i) =
              length (filter (\<lambda>r. fst (duelWinner r) \<in> set (map od_identifier A))
                        (roundResults (es ! i)))) \<and>
         (\<forall>i. Suc i < length es \<longrightarrow>
            overallScoreA (es ! i) < 2 \<and> overallScoreB (es ! i) < 2) \<and>
         (\<forall>i < length es. roundScoreA (es ! i) = roundScoreB (es ! i) \<longrightarrow>
            overallScoreA (es ! i) = (if i = 0 then 0 else overallScoreA (es ! (i - 1))) \<and>
            overallScoreB (es ! i) = (if i = 0 then 0 else overallScoreB (es ! (i - 1)))) \<and>
         (\<forall>i < length es.
            round (es ! i) = i + 1 \<and>
            roundWinner (es ! i) =
              (if roundScoreA (es ! i) > roundScoreB (es ! i) then challenger_clan b
               else if roundScoreB (es ! i) > roundScoreA (es ! i) then defender_clan b
               else ''TIE'') \<and>
            overallScoreA (es ! i) =
              (if i = 0 then 0 else overallScoreA (es ! (i - 1))) +
              (if roundScoreA (es ! i) > roundScoreB (es ! i) then 1 else 0) \<and>
            overallScoreB (es ! i) =
              (if i = 0 then 0 else overallScoreB (es ! (i - 1))) +
              (if roundScoreB (es ! i) > roundScoreA (es ! i) then 1 else 0))"
  have evs: "evs = events ?fin"
    by (simp add: evs_def startClanBattle_def Let_def)
  obtain e1 where e1: "roundOk ?ch ?df (Suc 0) A B ?s0 ?s1 e1"
    using playRound_events by blast
  obtain e2 where e2: "roundOk ?ch ?df (Suc (Suc 0)) A B ?s1 ?s2 e2"
    using playRound_events by blast
  obtain e3 where e3: "roundOk ?ch ?df (Suc (Suc (Suc 0))) A B ?s2 ?s3 e3"
    using playRound_events by blast
  have w1: "clanAWins ?s1 < 2" "clanBWins ?s1 < 2" using e1 by (auto simp: roundOk_def)
  have fin1: "?fin = roundLoop ?ch ?df A B rnds (Suc (Suc (Suc 0))) ?s2"
    using roundLoop_step[of "Suc 0" ?s0 ?ch ?df A B rnds]
      roundLoop_step[of "Suc (Suc 0)" ?s1 ?ch ?df A B rnds] w1
    by (simp add: maxRounds_def)
  have len: "length (fst (executeClanBattleRound A B rnd)) = min (length A) (length B)"
    by (rule length_executeClanBattleRound)
  have out: "length (shuffledA rnd) = length A \<and> length (shuffledB rnd) = length B \<longrightarrow>
      length (fst (snd (executeClanBattleRound A B rnd))) = length A - min (length A) (length B) \<and>
      length (snd (snd (executeClanBattleRound A B rnd))) = length B - min (length A) (length B)"
    by (simp add: executeClanBattleRound_def Let_def)
  show ?thesis
  proof (cases "clanAWins ?s2 \<ge> 2 \<or> clanBWins ?s2 \<ge> 2")
    case True
    then have "?fin = ?s2"
      using fin1 roundLoop_stop[of "Suc (Suc (Suc 0))" ?s2 ?ch ?df A B rnds] by simp
    then have l: "evs = [e1, e2]" using evs e1 e2 by (simp add: roundOk_def)
    have "?P [e1, e2]"
      using e1 e2 w1 True
      by (auto simp: roundOk_def nth_Cons less_Suc_eq split: nat.splits)
    then show ?thesis unfolding l using len out by blast
  next
    case False
    then have "?fin = roundLoop ?ch ?df A B rnds (Suc (Suc (Suc (Suc 0)))) ?s3"
      using fin1 roundLoop_step[of "Suc (Suc (Suc 0))" ?s2 ?ch ?df A B rnds]
      by (simp add: maxRounds_def)
    then have "?fin = ?s3"
      using roundLoop_stop[of "Suc (Suc (Suc (Suc 0)))" ?s3 ?ch ?df A B rnds]
      by (simp add: maxRounds_def)
    then have l: "evs = [e1, e2, e3]" using evs e1 e2 e3 by (simp add: roundOk_def)
    have "?P [e1, e2, e3]"
      using e1 e2 e3 w1 False
      by (auto simp: roundOk_def nth_Cons less_Suc_eq split: nat.splits)
    then show ?thesis unfolding l using len out by blast
  qed
qed

theorem clan_battle_series_witness:
  "length (roundEvents (startClanBattle True exBattle exPairsA exPairsB None None
                          exPairsRandom (exTable 5))) = 3 \<and>
   length (roundResults (roundEvents (startClanBattle True exBattle exPairsA exPairsB None None
                          exPairsRandom (exTable 5)) ! 0)) = 2 \<and>
   roundScoreA (roundEvents (startClanBattle True exBattle exPairsA exPairsB None None
                          exPairsRandom (exTable 5)) ! 0) =
   roundScoreB (roundEvents (startClanBattle True exBattle exPairsA exPairsB None None
                          exPairsRandom (exTable 5)) ! 0) \<and>
   overallScoreA (roundEvents (startClanBattle True exBattle exPairsA exPairsB None None
                          exPairsRandom (exTable 5)) ! 0) = 0 \<and>
   overallScoreB (roundEvents (startClanBattle True exBattle exPairsA exPairsB None None
                          exPairsRandom (exTable 5)) ! 0) = 0 \<and>
   length (fst (snd (executeClanBattleRound exPairsA exPairsB (exPairsRandom 1)))) = 0 \<and>
   length (roundEvents (startClanBattle True exBattle exFourA exThreeB None None
                          exFourRandom (exTable 5))) = 2 \<and>
   length (roundResults (roundEvents (startClanBattle True exBattle exFourA exThreeB None None
                          exFourRandom (exTable 5)) ! 0)) = 3 \<and>
   length (fst (snd (executeClanBattleRound exFourA exThreeB (exFourRandom 1)))) = 1 \<and>
   overallScoreA (roundEvents (startClanBattle True exBattle exFourA exThreeB None None
                          exFourRandom (exTable 5)) ! 0) = 1 \<and>
   overallScoreA (roundEvents (startClanBattle True exBattle exFourA exThreeB None None
                          exFourRandom (exTable 5)) ! 1) = 2 \<and>
   roundWinner (roundEvents (startClanBattle True exBattle exFourA exThreeB None None
                          exFourRandom (exTable 5)) ! 1) = ''A''"
proof -
  let ?evs = "roundEvents (startClanBattle True exBattle exPairsA exPairsB None None
                             exPairsRandom (exTable 5))"
  let ?fvs = "roundEvents (startClanBattle True exBattle exFourA exThreeB None None
                             exFourRandom (exTable 5))"
  let ?f = "\<lambda>e. (round e, roundWinner e, roundScoreA e, roundScoreB e, overallScoreA e,
                  overallScoreB e)"
  have "length (map ?f ?evs) = 3" by (simp only: exPairs_events) simp
  then have len: "length ?evs = 3" by simp
  have "map ?f ?evs ! 0 = (1, ''TIE'', 1, 1, 0, 0)" by (simp only: exPairs_events) simp
  then have tie: "roundScoreA (?evs ! 0) = roundScoreB (?evs ! 0)" using len by simp
  note t = clan_battle_series[where url = True and b = exBattle and A = exPairsA
      and B = exPairsB and ca = None and cb = None and rnds = exPairsRandom
      and d = "exTable 5" and rnd = "exPairsRandom 1"]
  have a: "length (roundResults (?evs ! 0)) = min (length exPairsA) (length exPairsB)"
    using t len by simp
  have b: "overallScoreA (?evs ! 0) = 0 \<and> overallScoreB (?evs ! 0) = 0"
    using t len tie by simp
  have "length (shuffledA (exPairsRandom 1)) = length exPairsA"
    and "length (shuffledB (exPairsRandom 1)) = length exPairsB"
    by (simp_all add: exPairsRandom_def)
  then have c: "length (fst (snd (executeClanBattleRound exPairsA exPairsB (exPairsRandom 1)))) =
      length exPairsA - min (length exPairsA) (length exPairsB)"
    using t by blast
  have "length (map ?f ?fvs) = 2" by (simp only: exFour_events) simp
  then have flen: "length ?fvs = 2" by simp
  have "map ?f ?fvs ! 0 = (1, ''A'', 3, 0, 1, 0)" and "map ?f ?fvs ! 1 = (2, ''A'', 3, 0, 2, 0)"
    by (simp_all only: exFour_events) simp_all
  then have sc: "roundScoreA (?fvs ! 0) = 3" "roundScoreB (?fvs ! 0) = 0"
      "roundScoreA (?fvs ! 1) = 3" "roundScoreB (?fvs ! 1) = 0"
    using flen by simp_all
  note u = clan_battle_series[where url = True and b = exBattle and A = exFourA
      and B = exThreeB and ca = None and cb = None and rnds = exFourRandom
      and d = "exTable 5" and rnd = "exFourRandom 1"]
  from u have inc: "\<forall>i < length ?fvs.
            round (?fvs ! i) = i + 1 \<and>
            roundWinner (?fvs ! i) =
              (if roundScoreA (?fvs ! i) > roundScoreB (?fvs ! i) then challenger_clan exBattle
               else if roundScoreB (?fvs ! i) > roundScoreA (?fvs ! i) then defender_clan exBattle
               else ''TIE'') \<and>
            overallScoreA (?fvs ! i) =
              (if i = 0 then 0 else overallScoreA (?fvs ! (i - 1))) +
              (if roundScoreA (?fvs ! i) > roundScoreB (?fvs ! i) then 1 else 0) \<and>
            overallScoreB (?fvs ! i) =
              (if i = 0 then 0 else overallScoreB (?fvs ! (i - 1))) +
              (if roundScoreB (?fvs ! i) > roundScoreA (?fvs ! i) then 1 else 0)"
    by blast
  have f0: "overallScoreA (?fvs ! 0) = 1"
    using inc[rule_format, of 0] flen sc by simp
  have f1: "overallScoreA (?fvs ! 1) = 2" "roundWinner (?fvs ! 1) = ''A''"
    using inc[rule_format, of 1] flen sc f0 by (simp_all add: exBattle_def)
  from u have "\<forall>i < length ?fvs.
            length (roundResults (?fvs ! i)) = min (length exFourA) (length exThreeB) \<and>
            roundScoreA (?fvs ! i) + roundScoreB (?fvs ! i) = min (length exFourA) (length exThreeB) \<and>
            roundScoreA (?fvs ! i) =
              length (filter (\<lambda>r. fst (duelWinner r) \<in> set (map od_identifier exFourA))
                        (roundResults (?fvs ! i)))"
    by blast
  then have fa: "length (roundResults (?fvs ! 0)) = min (length exFourA) (length exThreeB)"
    using flen by simp
  have "length (shuffledA (exFourRandom 1)) = length exFourA"
    and "length (shuffledB (exFourRandom 1)) = length exThreeB"
    by (simp_all add: exFourRandom_def)
  then have fc: "length (fst (snd (executeClanBattleRound exFourA exThreeB (exFourRandom 1)))) =
      length exFourA - min (length exFourA) (length exThreeB)"
    using u by blast
  show ?thesis using len a b c tie flen fa fc f0 f1
    by (simp add: exPairsA_def exPairsB_def exFourA_def exThreeB_def)
qed

subsection \<open>Settlement of a clan battle\<close>


















lemma showInt_unit: "showInt 1 = ''1''" "showInt (- 1) = ''-1''"
  by code_simp+

text \<open>
  A member whose identifier is \<open>constructor\<close>: the first read of the entry finds the
  function inherited from the prototype, the tracked change is a string, and the
  settlement stops at the first \<open>UPDATE\<close>, before any balance is written and before
  \<open>clanBattleComplete\<close> is emitted.
\<close>

lemma prototype_identifier_stops_settlement:
  "appliedChanges (startClanBattle True exBattle exCtorA exRosterB None None exCtorRandom
                     (exTable 5)) =
     [(''constructor'', Str ''function Object() { [native code] }11''), (''b'', Num (-2))] \<and>
   completion (startClanBattle True exBattle exCtorA exRosterB None None exCtorRandom
                 (exTable 5)) = Inl QueryError \<and>
   finalDb (startClanBattle True exBattle exCtorA exRosterB None None exCtorRandom
              (exTable 5)) = exTable 5"
  by (simp add: battle_defs exCtorA_def exRosterB_def exBattle_def exCtorRandom_def added_def
        functionText_def showInt_unit entries_def arrayIndex_def digitValue_def)




subsection \<open>Attacks grouped by target\<close>

lemma pushAttack_keys:
  "map fst (pushAttack t p m) = (if t \<in> set (map fst m) then map fst m else map fst m @ [t])"
proof (induction m)
  case Nil then show ?case by simp
next
  case (Cons x m)
  obtain k xs where x: "x = (k, xs)" by (cases x)
  show ?case using Cons by (simp add: x)
qed

lemma pushAttack_map_of:
  "map_of (pushAttack t p m) k =
     (if k = t then Some ((case map_of m t of None \<Rightarrow> [] | Some xs \<Rightarrow> xs) @ [p]) else map_of m k)"
proof (induction m)
  case Nil then show ?case by simp
next
  case (Cons x m)
  obtain k' xs where x: "x = (k', xs)" by (cases x)
  show ?case using Cons by (auto simp: x)
qed

lemma attacksByTarget_snoc:
  "attacksByTarget (ps @ [p]) =
     (case attackOf p of None \<Rightarrow> attacksByTarget ps | Some t \<Rightarrow> pushAttack t p (attacksByTarget ps))"
  by (simp add: attacksByTarget_def split: option.splits)

lemma attacksByTarget_distinct: "distinct (map fst (attacksByTarget ps))"
proof (induction ps rule: rev_induct)
  case Nil then show ?case by (simp add: attacksByTarget_def)
next
  case (snoc p ps)
  then show ?case by (simp add: attacksByTarget_snoc pushAttack_keys split: option.splits)
qed

lemma attacksByTarget_map_of:
  "map_of (attacksByTarget ps) t =
     (if attackersOf ps t = [] then None else Some (attackersOf ps t))"
proof (induction ps rule: rev_induct)
  case Nil then show ?case by (simp add: attacksByTarget_def attackersOf_def)
next
  case (snoc p ps)
  then show ?case
    by (auto simp: attacksByTarget_snoc pushAttack_map_of attackersOf_def split: option.splits)
qed

lemma attacksByTarget_mem:
  "((t, as) \<in> set (attacksByTarget ps)) = (as = attackersOf ps t \<and> as \<noteq> [])"
proof -
  have "((t, as) \<in> set (attacksByTarget ps)) = (map_of (attacksByTarget ps) t = Some as)"
    using attacksByTarget_distinct by simp
  then show ?thesis by (auto simp: attacksByTarget_map_of)
qed

subsection \<open>The resolution loop\<close>

lemma set_set_add: "set (set_add x xs) = insert x (set xs)"
  by (auto simp: set_add_def)

lemma distinct_set_add: "distinct xs \<Longrightarrow> distinct (set_add x xs)"
  by (simp add: set_add_def)

lemma isRevengeOn_cong:
  "rt (odIdentifier a) = rt' (odIdentifier a) \<Longrightarrow> isRevengeOn rt now a t = isRevengeOn rt' now a t"
  by (simp add: isRevengeOn_def)

lemma gangAttacker_simps:
  "losers (gangAttacker now t rs a) = losers rs"
  "winners (gangAttacker now t rs a) = set_add (pid a) (winners rs)"
  "winnerBonuses (gangAttacker now t rs a) i =
     (if i = pid a \<and> isRevengeOn (revenges rs) now a t
      then Some (bonusOf (winnerBonuses rs) (pid a) + 2) else winnerBonuses rs i)"
  "revenges (gangAttacker now t rs a) od =
     (if od = odIdentifier a \<and> isRevengeOn (revenges rs) now a t then None else revenges rs od)"
  "map outcome (results (gangAttacker now t rs a)) =
     map outcome (results rs) @ [(Some (pid a), Some (pid t), ''gang attack'')]"
  by (simp_all add: gangAttacker_def claimRevenge_def Let_def outcome_def)

lemma gang_fold_losers: "losers (foldl (gangAttacker now t) rs as) = losers rs"
  by (induction as arbitrary: rs) (simp_all add: gangAttacker_simps)

lemma gang_fold_winners:
  "set (winners (foldl (gangAttacker now t) rs as)) = set (winners rs) \<union> pid ` set as"
  by (induction as arbitrary: rs) (auto simp: gangAttacker_simps set_set_add)

lemma gang_fold_winners_distinct:
  "distinct (winners rs) \<Longrightarrow> distinct (winners (foldl (gangAttacker now t) rs as))"
  by (induction as arbitrary: rs) (simp_all add: gangAttacker_simps distinct_set_add)

lemma gang_fold_bonus_frame:
  "i \<notin> pid ` set as \<Longrightarrow> winnerBonuses (foldl (gangAttacker now t) rs as) i = winnerBonuses rs i"
  by (induction as arbitrary: rs) (auto simp: gangAttacker_simps)

lemma gang_fold_rev_frame:
  "od \<notin> odIdentifier ` set as \<Longrightarrow> revenges (foldl (gangAttacker now t) rs as) od = revenges rs od"
  by (induction as arbitrary: rs) (auto simp: gangAttacker_simps)

lemma gang_fold_results:
  "map outcome (results (foldl (gangAttacker now t) rs as)) =
     map outcome (results rs) @ map (\<lambda>a. (Some (pid a), Some (pid t), ''gang attack'')) as"
  by (induction as arbitrary: rs) (simp_all add: gangAttacker_simps)

lemma gang_fold_bonus:
  "a \<in> set as \<Longrightarrow> distinct (map pid as) \<Longrightarrow> distinct (map odIdentifier as) \<Longrightarrow>
   winnerBonuses (foldl (gangAttacker now t) rs as) (pid a) =
     (if isRevengeOn (revenges rs) now a t
      then Some (bonusOf (winnerBonuses rs) (pid a) + 2) else winnerBonuses rs (pid a))"
proof (induction as arbitrary: rs)
  case Nil then show ?case by simp
next
  case (Cons x as)
  show ?case
  proof (cases "x = a")
    case True
    have "pid a \<notin> pid ` set as" using Cons.prems True by auto
    then show ?thesis using True by (simp add: gang_fold_bonus_frame gangAttacker_simps)
  next
    case False
    then have ain: "a \<in> set as" using Cons.prems by simp
    have ne: "pid a \<noteq> pid x" "odIdentifier a \<noteq> odIdentifier x"
      using Cons.prems ain by (force simp: image_iff)+
    have r: "isRevengeOn (revenges (gangAttacker now t rs x)) now a t = isRevengeOn (revenges rs) now a t"
      using ne by (intro isRevengeOn_cong) (simp add: gangAttacker_simps)
    have "winnerBonuses (foldl (gangAttacker now t) (gangAttacker now t rs x) as) (pid a) =
       (if isRevengeOn (revenges (gangAttacker now t rs x)) now a t
        then Some (bonusOf (winnerBonuses (gangAttacker now t rs x)) (pid a) + 2)
        else winnerBonuses (gangAttacker now t rs x) (pid a))"
      using Cons.prems ain by (intro Cons.IH) auto
    then show ?thesis using ne by (simp add: r gangAttacker_simps bonusOf_def)
  qed
qed

lemma determineWinner_outcome:
  "(winner (determineWinner a t) = Some (pid a) \<and> loser (determineWinner a t) = Some (pid t)) \<or>
   (winner (determineWinner a t) = Some (pid t) \<and> loser (determineWinner a t) = Some (pid a))"
  by (simp add: determineWinner_def Let_def)

lemma singleAttack_simps:
  "winnerBonuses (singleAttack now t a rs) i =
     (if i = pid a \<and> winner (determineWinner a t) = Some (pid a) \<and> isRevengeOn (revenges rs) now a t
      then Some (bonusOf (winnerBonuses rs) (pid a) + 2) else winnerBonuses rs i)"
  "revenges (singleAttack now t a rs) od =
     (if od = odIdentifier a \<and> winner (determineWinner a t) = Some (pid a) \<and> isRevengeOn (revenges rs) now a t
      then None else revenges rs od)"
  "losers (singleAttack now t a rs) =
     set_add (the (loser (determineWinner a t))) (losers rs)"
  "winners (singleAttack now t a rs) =
     set_add (the (winner (determineWinner a t))) (winners rs)"
  "map outcome (results (singleAttack now t a rs)) =
     map outcome (results rs) @ [outcome (determineWinner a t)]"
  using determineWinner_outcome[of a t]
  by (auto simp: singleAttack_def claimRevenge_def Let_def outcome_def)

lemma processGroup_bonus_frame:
  "i \<notin> pid ` set as \<Longrightarrow> winnerBonuses (processGroup ps now rs (k, as)) i = winnerBonuses rs i"
  by (auto simp: processGroup_def gang_fold_bonus_frame singleAttack_simps
           split: option.splits list.splits)

lemma processGroup_rev_frame:
  "od \<notin> odIdentifier ` set as \<Longrightarrow> revenges (processGroup ps now rs (k, as)) od = revenges rs od"
  by (auto simp: processGroup_def gang_fold_rev_frame singleAttack_simps
           split: option.splits list.splits)

lemma processGroup_losers_mono:
  "set (losers rs) \<subseteq> set (losers (processGroup ps now rs g))"
  by (cases g)
     (auto simp: processGroup_def gang_fold_losers singleAttack_simps set_set_add
           split: option.splits list.splits)

lemma processGroup_winners_mono:
  "set (winners rs) \<subseteq> set (winners (processGroup ps now rs g))"
  by (cases g)
     (auto simp: processGroup_def gang_fold_winners singleAttack_simps set_set_add
           split: option.splits list.splits)

lemma processGroup_distinct:
  "distinct (losers rs) \<Longrightarrow> distinct (losers (processGroup ps now rs g))"
  "distinct (winners rs) \<Longrightarrow> distinct (winners (processGroup ps now rs g))"
  by (cases g;
      auto simp: processGroup_def gang_fold_losers gang_fold_winners_distinct singleAttack_simps
                 distinct_set_add
           split: option.splits list.splits)+

lemma processGroup_results:
  "\<exists>xs. map outcome (results (processGroup ps now rs g)) = map outcome (results rs) @ xs"
  by (cases g)
     (auto simp: processGroup_def gang_fold_results singleAttack_simps
           split: option.splits list.splits)

lemma groups_bonus_frame:
  "\<forall>(k, as) \<in> set gs. i \<notin> pid ` set as \<Longrightarrow>
     winnerBonuses (foldl (processGroup ps now) rs gs) i = winnerBonuses rs i"
proof (induction gs arbitrary: rs)
  case Nil then show ?case by simp
next
  case (Cons g gs)
  obtain k as where g: "g = (k, as)" by (cases g)
  show ?case using Cons by (simp add: g processGroup_bonus_frame)
qed

lemma groups_rev_frame:
  "\<forall>(k, as) \<in> set gs. od \<notin> odIdentifier ` set as \<Longrightarrow>
     revenges (foldl (processGroup ps now) rs gs) od = revenges rs od"
proof (induction gs arbitrary: rs)
  case Nil then show ?case by simp
next
  case (Cons g gs)
  obtain k as where g: "g = (k, as)" by (cases g)
  show ?case using Cons by (simp add: g processGroup_rev_frame)
qed

lemma groups_losers_mono:
  "set (losers rs) \<subseteq> set (losers (foldl (processGroup ps now) rs gs))"
proof (induction gs arbitrary: rs)
  case Nil then show ?case by simp
next
  case (Cons g gs)
  show ?case using Cons[of "processGroup ps now rs g"] processGroup_losers_mono[of rs ps now g]
    by auto
qed

lemma groups_winners_mono:
  "set (winners rs) \<subseteq> set (winners (foldl (processGroup ps now) rs gs))"
proof (induction gs arbitrary: rs)
  case Nil then show ?case by simp
next
  case (Cons g gs)
  show ?case using Cons[of "processGroup ps now rs g"] processGroup_winners_mono[of rs ps now g]
    by auto
qed

lemma groups_distinct:
  "distinct (losers rs) \<Longrightarrow> distinct (losers (foldl (processGroup ps now) rs gs))"
  "distinct (winners rs) \<Longrightarrow> distinct (winners (foldl (processGroup ps now) rs gs))"
  by (induction gs arbitrary: rs) (simp_all add: processGroup_distinct)

lemma groups_results:
  "\<exists>xs. map outcome (results (foldl (processGroup ps now) rs gs)) = map outcome (results rs) @ xs"
proof (induction gs arbitrary: rs)
  case Nil then show ?case by simp
next
  case (Cons g gs)
  obtain xs where a: "map outcome (results (processGroup ps now rs g)) = map outcome (results rs) @ xs"
    using processGroup_results by blast
  obtain ys where "map outcome (results (foldl (processGroup ps now) (processGroup ps now rs g) gs))
      = map outcome (results (processGroup ps now rs g)) @ ys"
    using Cons by blast
  then show ?case by (simp add: a)
qed

lemma players_get_pid: "players_get ps k = Some p \<Longrightarrow> pid p = k \<and> p \<in> set ps"
  by (auto simp: players_get_def find_Some_iff)

lemma attackersOf_mem: "a \<in> set (attackersOf ps t) \<Longrightarrow> a \<in> set ps \<and> attackOf a = Some t"
  by (simp add: attackersOf_def)

lemma distinct_map_neq:
  "distinct (map f xs) \<Longrightarrow> x \<in> set xs \<Longrightarrow> y \<in> set xs \<Longrightarrow> x \<noteq> y \<Longrightarrow> f x \<noteq> f y"
  by (meson distinct_map inj_on_def)

lemma attackersOf_distinct:
  "distinct (map f ps) \<Longrightarrow> distinct (map f (attackersOf ps t))"
  by (simp add: attackersOf_def distinct_map_filter)

lemma resolve_gang:
  fixes now rt
  assumes dp: "distinct (map pid ps)" and dod: "distinct (map odIdentifier ps)"
    and t: "players_get ps T = Some t" and pit: "inPit t"
    and len: "length (attackersOf ps T) > 1" and a: "a \<in> set (attackersOf ps T)"
  defines "r \<equiv> resolveAttacks now ps rt"
  shows "T \<in> set (losers r)" and "pid a \<in> set (winners r)"
    and "bonusOf (winnerBonuses r) (pid a) = (if isRevengeOn rt now a t then 2 else 0)"
    and "(Some (pid a), Some T, ''gang attack'') \<in> set (map outcome (results r))"
proof -
  let ?as = "attackersOf ps T"
  let ?gs = "attacksByTarget ps"
  let ?pg = "processGroup ps now"
  let ?r0 = "\<lparr> results = [], losers = [], winners = [], winnerBonuses = Map.empty, revenges = rt \<rparr>"
  have "(T, ?as) \<in> set ?gs" using len by (auto simp: attacksByTarget_mem)
  then obtain gs1 gs2 where gs: "?gs = gs1 @ (T, ?as) # gs2" by (meson split_list)
  have dk: "distinct (map fst ?gs)" by (rule attacksByTarget_distinct)
  have other: "pid a \<notin> pid ` set as' \<and> odIdentifier a \<notin> odIdentifier ` set as'"
    if "(k, as') \<in> set gs1 \<union> set gs2" for k as'
  proof -
    have "(k, as') \<in> set ?gs" using that gs by auto
    then have as': "as' = attackersOf ps k" by (simp add: attacksByTarget_mem)
    have "k \<in> fst ` (set gs1 \<union> set gs2)" using that by force
    then have kT: "k \<noteq> T" using dk gs by auto
    have ain: "a \<in> set ps" "attackOf a = Some T" using a attackersOf_mem by auto
    { fix a' assume "a' \<in> set as'"
      then have a': "a' \<in> set ps" "attackOf a' = Some k" using as' attackersOf_mem by auto
      then have "a' \<noteq> a" using ain kT by auto
      then have "pid a' \<noteq> pid a" "odIdentifier a' \<noteq> odIdentifier a"
        using distinct_map_neq[OF dp a'(1) ain(1)] distinct_map_neq[OF dod a'(1) ain(1)] by auto }
    then show ?thesis by force
  qed
  let ?r1 = "foldl ?pg ?r0 gs1"
  let ?r1' = "?r1\<lparr>losers := set_add T (losers ?r1)\<rparr>"
  let ?r2 = "?pg ?r1 (T, ?as)"
  have r: "r = foldl ?pg ?r2 gs2" by (simp add: r_def resolveAttacks_def gs)
  have r2: "?r2 = foldl (gangAttacker now t) ?r1' ?as"
    using t pit len by (simp add: processGroup_def)
  have b1: "winnerBonuses ?r1 (pid a) = None"
    using other by (subst groups_bonus_frame) auto
  have v1: "revenges ?r1 (odIdentifier a) = rt (odIdentifier a)"
    using other by (subst groups_rev_frame) auto
  have rev: "isRevengeOn (revenges ?r1) now a t = isRevengeOn rt now a t"
    by (intro isRevengeOn_cong) (simp add: v1)
  have b2: "winnerBonuses ?r2 (pid a) = (if isRevengeOn rt now a t then Some 2 else None)"
    unfolding r2 using a dp dod
    by (subst gang_fold_bonus) (simp_all add: attackersOf_distinct rev b1 bonusOf_def)
  have b3: "winnerBonuses r (pid a) = winnerBonuses ?r2 (pid a)"
    unfolding r using other by (subst groups_bonus_frame) auto
  show "bonusOf (winnerBonuses r) (pid a) = (if isRevengeOn rt now a t then 2 else 0)"
    by (simp add: bonusOf_def b3 b2)
  have "T \<in> set (losers ?r2)" unfolding r2 by (simp add: gang_fold_losers set_set_add)
  then show "T \<in> set (losers r)" unfolding r using groups_losers_mono by blast
  have "pid a \<in> set (winners ?r2)" unfolding r2 using a by (simp add: gang_fold_winners)
  then show "pid a \<in> set (winners r)" unfolding r using groups_winners_mono by blast
  have pt: "pid t = T" using t players_get_pid by blast
  have "(Some (pid a), Some T, ''gang attack'') \<in> set (map outcome (results ?r2))"
    unfolding r2 using a by (auto simp: gang_fold_results pt image_iff)
  moreover obtain xs where "map outcome (results r) = map outcome (results ?r2) @ xs"
    unfolding r using groups_results by blast
  ultimately show "(Some (pid a), Some T, ''gang attack'') \<in> set (map outcome (results r))"
    by simp
qed

subsection \<open>The loops over losers and winners\<close>

lemma players_get_modify:
  "(\<And>p. pid (f p) = pid p) \<Longrightarrow>
   players_get (players_modify k f ps) k' =
     (if k' = k then map_option f (players_get ps k) else players_get ps k')"
  by (induction ps) (auto simp: players_get_def players_modify_def)

lemma pid_resetLoser: "pid (resetLoser p) = pid p"
  by (simp add: resetLoser_def)

lemma applyLoser_get:
  "players_get (players (fst (applyLoser url now (s, rs) l))) k =
     (if k = l then
        map_option (\<lambda>p. resetLoser (p\<lparr>points := max 0 (points p - 1),
             clanName := (case (if max 0 (points p - 1) = 0 then winnerPlayerOf (players s) rs l else None) of
                             None \<Rightarrow> clanName p | Some wp \<Rightarrow> clanName wp)\<rparr>))
          (players_get (players s) l)
      else players_get (players s) k)"
  by (auto simp: applyLoser_def Let_def players_get_modify pid_resetLoser split: option.splits)

lemma applyLoser_points:
  "pointsAt (fst (applyLoser url now (s, rs) l)) k =
     (if k = l \<and> players_get (players s) l \<noteq> None then max 0 (pointsAt s l - 1) else pointsAt s k)"
  by (auto simp: pointsAt_def applyLoser_get resetLoser_def split: option.splits)

lemma applyLoser_present:
  "(players_get (players (fst (applyLoser url now (s, rs) l))) k = None) =
     (players_get (players s) k = None)"
  by (simp add: applyLoser_get)

lemma outcome_updateFirst:
  "(\<And>x. g (f x) = g x) \<Longrightarrow> map g (updateFirst P f xs) = map g xs"
  by (induction xs) auto

lemma applyLoser_outcomes: "map outcome (snd (applyLoser url now (s, rs) l)) = map outcome rs"
  by (auto simp: applyLoser_def Let_def outcome_updateFirst outcome_def split: option.splits)

lemma loser_fold:
  "distinct ls \<Longrightarrow>
   pointsAt (fst (foldl (applyLoser url now) (s, rs) ls)) k =
     (if k \<in> set ls \<and> players_get (players s) k \<noteq> None then max 0 (pointsAt s k - 1)
      else pointsAt s k) \<and>
   (players_get (players (fst (foldl (applyLoser url now) (s, rs) ls))) k = None) =
     (players_get (players s) k = None) \<and>
   map outcome (snd (foldl (applyLoser url now) (s, rs) ls)) = map outcome rs"
proof (induction ls arbitrary: s rs)
  case Nil then show ?case by simp
next
  case (Cons l ls)
  obtain s' rs' where st: "applyLoser url now (s, rs) l = (s', rs')" by (cases "applyLoser url now (s, rs) l")
  have p: "pointsAt s' k = (if k = l \<and> players_get (players s) l \<noteq> None then max 0 (pointsAt s l - 1) else pointsAt s k)"
    using applyLoser_points[of url now s rs l k] by (simp add: st)
  have q: "(players_get (players s') k = None) = (players_get (players s) k = None)"
    using applyLoser_present[of url now s rs l k] by (simp add: st)
  have o: "map outcome rs' = map outcome rs"
    using applyLoser_outcomes[of url now s rs l] by (simp add: st)
  have d: "distinct ls" "l \<notin> set ls" using Cons.prems by auto
  show ?case using Cons.IH[OF d(1), of s' rs'] p q o d(2) by (auto simp: st)
qed

lemma applyWinner_get:
  "players_get (players (fst (applyWinner url ls b (s, rs) w))) k =
     (if k = w \<and> w \<notin> set ls then
        map_option (\<lambda>p. p\<lparr>points := points p + (1 + bonusOf b w), streak := streak p + 1,
             dailyRevengeKills := (if bonusOf b w > 0 then dailyRevengeKills p + 1 else dailyRevengeKills p),
             dailyMaxStreak := (if streak p + 1 > dailyMaxStreak p then streak p + 1 else dailyMaxStreak p),
             action := None, actionTarget := None, actionTime := None, attackType := None,
             canHeckle := True\<rparr>)
          (players_get (players s) w)
      else players_get (players s) k)"
  by (auto simp: applyWinner_def Let_def players_get_modify split: option.splits)

lemma applyWinner_points:
  "pointsAt (fst (applyWinner url ls b (s, rs) w)) k =
     (if k = w \<and> w \<notin> set ls \<and> players_get (players s) w \<noteq> None
      then pointsAt s w + 1 + bonusOf b w else pointsAt s k)"
  by (auto simp: pointsAt_def applyWinner_get split: option.splits)

lemma applyWinner_present:
  "(players_get (players (fst (applyWinner url ls b (s, rs) w))) k = None) =
     (players_get (players s) k = None)"
  by (simp add: applyWinner_get)

lemma applyWinner_outcomes: "map outcome (snd (applyWinner url ls b (s, rs) w)) = map outcome rs"
  by (auto simp: applyWinner_def Let_def outcome_updateFirst outcome_def split: option.splits)

lemma winner_fold:
  "distinct ws \<Longrightarrow>
   pointsAt (fst (foldl (applyWinner url ls b) (s, rs) ws)) k =
     (if k \<in> set ws \<and> k \<notin> set ls \<and> players_get (players s) k \<noteq> None
      then pointsAt s k + 1 + bonusOf b k else pointsAt s k) \<and>
   (players_get (players (fst (foldl (applyWinner url ls b) (s, rs) ws))) k = None) =
     (players_get (players s) k = None) \<and>
   map outcome (snd (foldl (applyWinner url ls b) (s, rs) ws)) = map outcome rs"
proof (induction ws arbitrary: s rs)
  case Nil then show ?case by simp
next
  case (Cons w ws)
  obtain s' rs' where st: "applyWinner url ls b (s, rs) w = (s', rs')"
    by (cases "applyWinner url ls b (s, rs) w")
  have p: "pointsAt s' k = (if k = w \<and> w \<notin> set ls \<and> players_get (players s) w \<noteq> None
      then pointsAt s w + 1 + bonusOf b w else pointsAt s k)"
    using applyWinner_points[of url ls b s rs w k] by (simp add: st)
  have q: "(players_get (players s') k = None) = (players_get (players s) k = None)"
    using applyWinner_present[of url ls b s rs w k] by (simp add: st)
  have o: "map outcome rs' = map outcome rs"
    using applyWinner_outcomes[of url ls b s rs w] by (simp add: st)
  have d: "distinct ws" "w \<notin> set ws" using Cons.prems by auto
  show ?case using Cons.IH[OF d(1), of s' rs'] p q o d(2) by (auto simp: st)
qed

lemma resolve_distinct:
  "distinct (losers (resolveAttacks now ps rt))" "distinct (winners (resolveAttacks now ps rt))"
  by (simp_all add: resolveAttacks_def groups_distinct)

lemma processAllAttacks_points:
  fixes url now s
  defines "r \<equiv> resolveAttacks now (players s) (revengeTargets s)"
  shows "pointsAt (fst (processAllAttacks url now s)) k =
     (if players_get (players s) k = None then pointsAt s k
      else if k \<in> set (losers r) then max 0 (pointsAt s k - 1)
      else if k \<in> set (winners r) then pointsAt s k + 1 + bonusOf (winnerBonuses r) k
      else pointsAt s k)"
    and "map outcome (snd (processAllAttacks url now s)) = map outcome (results r)"
proof -
  let ?s0 = "s\<lparr>revengeTargets := revenges r\<rparr>"
  obtain s1 rs1 where l: "foldl (applyLoser url now) (?s0, results r) (losers r) = (s1, rs1)"
    by (cases "foldl (applyLoser url now) (?s0, results r) (losers r)")
  have pa: "processAllAttacks url now s = foldl (applyWinner url (losers r) (winnerBonuses r)) (s1, rs1) (winners r)"
    by (simp add: processAllAttacks_def Let_def r_def[symmetric] l)
  have dl: "distinct (losers r)" and dw: "distinct (winners r)"
    by (simp_all add: r_def resolve_distinct)
  have p0: "pointsAt ?s0 k = pointsAt s k" for k by (simp add: pointsAt_def)
  note L = loser_fold[OF dl, of url now ?s0 "results r", unfolded l, simplified]
  note W = winner_fold[OF dw, of url "losers r" "winnerBonuses r" s1 rs1]
  show "pointsAt (fst (processAllAttacks url now s)) k =
     (if players_get (players s) k = None then pointsAt s k
      else if k \<in> set (losers r) then max 0 (pointsAt s k - 1)
      else if k \<in> set (winners r) then pointsAt s k + 1 + bonusOf (winnerBonuses r) k
      else pointsAt s k)"
    unfolding pa using L[of k] W[of k] by (auto simp: p0)
  show "map outcome (snd (processAllAttacks url now s)) = map outcome (results r)"
    unfolding pa using L[of k] W[of k] by simp
qed

subsection \<open>Every loser has a winner\<close>

lemma gangAttacker_results:
  "\<exists>e. results (gangAttacker now t rs a) = results rs @ [e] \<and> winner e = Some (pid a) \<and> loser e = Some (pid t)"
  by (simp add: gangAttacker_def claimRevenge_def Let_def)

lemma gang_fold_resolved:
  "set as \<subseteq> set ps \<Longrightarrow> pid t \<in> pid ` set ps \<Longrightarrow>
   (\<forall>e \<in> set (results rs). \<exists>w. winner e = Some w \<and> w \<in> pid ` set ps) \<Longrightarrow>
   (\<forall>e \<in> set (results (foldl (gangAttacker now t) rs as)). \<exists>w. winner e = Some w \<and> w \<in> pid ` set ps) \<and>
   set (results rs) \<subseteq> set (results (foldl (gangAttacker now t) rs as)) \<and>
   (as \<noteq> [] \<longrightarrow> (\<exists>e \<in> set (results (foldl (gangAttacker now t) rs as)). loser e = Some (pid t)))"
proof (induction as arbitrary: rs)
  case Nil then show ?case by simp
next
  case (Cons a as)
  obtain e where e: "results (gangAttacker now t rs a) = results rs @ [e]"
      "winner e = Some (pid a)" "loser e = Some (pid t)"
    using gangAttacker_results by blast
  have "\<forall>e \<in> set (results (gangAttacker now t rs a)). \<exists>w. winner e = Some w \<and> w \<in> pid ` set ps"
    using Cons.prems e by auto
  from Cons.IH[OF _ Cons.prems(2) this] Cons.prems(1)
  have ih: "(\<forall>e \<in> set (results (foldl (gangAttacker now t) (gangAttacker now t rs a) as)). \<exists>w. winner e = Some w \<and> w \<in> pid ` set ps)"
     "set (results (gangAttacker now t rs a)) \<subseteq> set (results (foldl (gangAttacker now t) (gangAttacker now t rs a) as))"
    by auto
  have "e \<in> set (results (foldl (gangAttacker now t) (gangAttacker now t rs a) as))"
    using ih(2) e(1) by auto
  then show ?case using ih e by auto
qed

lemma singleAttack_results:
  "results (singleAttack now t a rs) = results rs @ [if winner (determineWinner a t) = Some (pid a)
       then (determineWinner a t)\<lparr>isRevenge := isRevengeOn (revenges rs) now a t\<rparr> else determineWinner a t]"
  using determineWinner_outcome[of a t]
  by (auto simp: singleAttack_def claimRevenge_def Let_def)

lemma processGroup_resolved:
  assumes "resolved ps (results rs) (losers rs)" and "set as \<subseteq> set ps"
  shows "resolved ps (results (processGroup ps now rs (k, as))) (losers (processGroup ps now rs (k, as)))"
proof (cases "players_get ps k")
  case None
  then show ?thesis using assms by (simp add: processGroup_def)
next
  case (Some t)
  then have t: "pid t = k" "t \<in> set ps" using players_get_pid by auto
  show ?thesis
  proof (cases "inPit t")
    case False
    then show ?thesis using assms Some by (simp add: processGroup_def)
  next
    case True
    show ?thesis
    proof (cases "length as > 1")
      case gang: True
      let ?rs' = "rs\<lparr>losers := set_add k (losers rs)\<rparr>"
      have pg: "processGroup ps now rs (k, as) = foldl (gangAttacker now t) ?rs' as"
        using Some True gang by (simp add: processGroup_def)
      have ne: "as \<noteq> []" using gang by auto
      have w: "\<forall>e \<in> set (results ?rs'). \<exists>w. winner e = Some w \<and> w \<in> pid ` set ps"
        using assms(1) by (simp add: resolved_def)
      note g = gang_fold_resolved[OF assms(2) _ w, of t now]
      have pt: "pid t \<in> pid ` set ps" using t by auto
      from g[OF pt] ne
      have g1: "\<forall>e \<in> set (results (foldl (gangAttacker now t) ?rs' as)).
                  \<exists>w. winner e = Some w \<and> w \<in> pid ` set ps"
        and g2: "set (results rs) \<subseteq> set (results (foldl (gangAttacker now t) ?rs' as))"
        and g3: "\<exists>e \<in> set (results (foldl (gangAttacker now t) ?rs' as)). loser e = Some k"
        by (auto simp: t)
      have "l \<in> pid ` set ps \<and>
              (\<exists>e \<in> set (results (foldl (gangAttacker now t) ?rs' as)). loser e = Some l)"
        if "l \<in> set (set_add k (losers rs))" for l
      proof (cases "l = k")
        case True
        then show ?thesis using g3 t by auto
      next
        case False
        then have "l \<in> set (losers rs)" using that by (simp add: set_set_add)
        then have "l \<in> pid ` set ps" "\<exists>e \<in> set (results rs). loser e = Some l"
          using assms(1) by (auto simp: resolved_def)
        then show ?thesis using g2 by blast
      qed
      then show ?thesis unfolding pg resolved_def gang_fold_losers using g1 by simp
    next
      case single: False
      show ?thesis
      proof (cases as)
        case Nil
        then show ?thesis using assms Some True by (simp add: processGroup_def)
      next
        case (Cons a as')
        then have a: "a \<in> set ps" using assms(2) by auto
        show ?thesis
        proof (cases "pid a \<in> set (losers rs)")
          case True
          then show ?thesis using assms Some \<open>inPit t\<close> single Cons by (simp add: processGroup_def)
        next
          case False
          then have pg: "processGroup ps now rs (k, as) = singleAttack now t a rs"
            using Some \<open>inPit t\<close> single Cons by (simp add: processGroup_def)
          show ?thesis unfolding pg resolved_def
            using assms(1) a t determineWinner_outcome[of a t]
            by (auto simp: resolved_def singleAttack_results singleAttack_simps set_set_add)
        qed
      qed
    qed
  qed
qed

lemma groups_resolved:
  "resolved ps (results rs) (losers rs) \<Longrightarrow> \<forall>(k, as) \<in> set gs. set as \<subseteq> set ps \<Longrightarrow>
   resolved ps (results (foldl (processGroup ps now) rs gs)) (losers (foldl (processGroup ps now) rs gs))"
proof (induction gs arbitrary: rs)
  case Nil then show ?case by simp
next
  case (Cons g gs)
  obtain k as where g: "g = (k, as)" by (cases g)
  have "resolved ps (results (processGroup ps now rs g)) (losers (processGroup ps now rs g))"
    unfolding g using Cons.prems by (intro processGroup_resolved) (auto simp: g)
  then show ?case using Cons.IH Cons.prems(2) by simp
qed

lemma resolveAttacks_resolved:
  "resolved ps (results (resolveAttacks now ps rt)) (losers (resolveAttacks now ps rt))"
  unfolding resolveAttacks_def
proof (rule groups_resolved)
  show "resolved ps (results \<lparr>results = [], losers = [], winners = [], winnerBonuses = Map.empty, revenges = rt\<rparr>)
     (losers \<lparr>results = [], losers = [], winners = [], winnerBonuses = Map.empty, revenges = rt\<rparr>)"
    by (simp add: resolved_def)
  show "\<forall>(k, as) \<in> set (attacksByTarget ps). set as \<subseteq> set ps"
    by (auto simp: attacksByTarget_mem attackersOf_def)
qed

lemma resolved_outcome:
  "resolved ps rs ls =
    ((\<forall>x \<in> set (map outcome rs). \<exists>w. fst x = Some w \<and> w \<in> set (map pid ps)) \<and>
     (\<forall>l \<in> set ls. l \<in> set (map pid ps) \<and> (\<exists>x \<in> set (map outcome rs). fst (snd x) = Some l)))"
  by (simp add: resolved_def outcome_def)

lemma resolved_cong:
  "map outcome rs = map outcome rs' \<Longrightarrow> map pid ps = map pid ps' \<Longrightarrow>
   resolved ps rs ls = resolved ps' rs' ls"
  by (simp only: resolved_outcome)

lemma pid_players_modify: "(\<And>p. pid (f p) = pid p) \<Longrightarrow> map pid (players_modify k f ps) = map pid ps"
  by (induction ps) (auto simp: players_modify_def)

lemma applyLoser_pids: "map pid (players (fst (applyLoser url now (s, rs) l))) = map pid (players s)"
  by (auto simp: applyLoser_def Let_def pid_players_modify pid_resetLoser split: option.splits)

lemma loser_fold_resolved:
  "map pid (players (fst (foldl (applyLoser url now) (s, rs) ls))) = map pid (players s) \<and>
   map outcome (snd (foldl (applyLoser url now) (s, rs) ls)) = map outcome rs"
proof (induction ls arbitrary: s rs)
  case Nil then show ?case by simp
next
  case (Cons l ls)
  obtain s' rs' where st: "applyLoser url now (s, rs) l = (s', rs')" by (cases "applyLoser url now (s, rs) l")
  have "map pid (players s') = map pid (players s)" "map outcome rs' = map outcome rs"
    using applyLoser_pids[of url now s rs l] applyLoser_outcomes[of url now s rs l] by (simp_all add: st)
  then show ?case using Cons[of s' rs'] by (simp add: st)
qed

lemma resolved_winnerPlayer:
  assumes "resolved ps rs ls" and "l \<in> set ls"
  shows "\<exists>p wp. players_get ps l = Some p \<and> winnerPlayerOf ps rs l = Some wp"
proof -
  have lp: "l \<in> pid ` set ps" and ex: "\<exists>e \<in> set rs. loser e = Some l"
    using assms by (auto simp: resolved_def)
  have "players_get ps l \<noteq> None" using lp by (auto simp: players_get_def find_None_iff)
  then obtain p where p: "players_get ps l = Some p" by auto
  have "find (\<lambda>r. loser r = Some l) rs \<noteq> None" using ex by (auto simp: find_None_iff)
  then obtain e where e: "find (\<lambda>r. loser r = Some l) rs = Some e" by auto
  then have "e \<in> set rs" by (auto simp: find_Some_iff)
  then obtain w where w: "winner e = Some w" "w \<in> pid ` set ps"
    using assms(1) by (auto simp: resolved_def)
  have "players_get ps w \<noteq> None" using w(2) by (auto simp: players_get_def find_None_iff)
  then obtain wp where "players_get ps w = Some wp" by auto
  then show ?thesis using p e w by (simp add: winnerPlayerOf_def)
qed

lemma applyLoser_step:
  assumes "players_get (players s) l = Some p" and "winnerPlayerOf (players s) rs l = Some wp"
  shows "players_get (players (fst (applyLoser url now (s, rs) l))) l =
           Some (resetLoser (p\<lparr>points := max 0 (points p - 1),
                   clanName := (if max 0 (points p - 1) = 0 then clanName wp else clanName p)\<rparr>))"
    and "table (fst (applyLoser url now (s, rs) l)) =
           (if max 0 (points p - 1) = 0
            then captureCharacter url (odIdentifier p) (clanName wp) (Some (odIdentifier wp))
                   (updatePlayerPoints url (odIdentifier p) 0 (table s))
            else updatePlayerPoints url (odIdentifier p) (max 0 (points p - 1)) (table s))"
  using assms
  by (auto simp: applyLoser_def Let_def players_get_modify pid_resetLoser)

subsection \<open>Payloads\<close>

lemma insort_key_map:
  "(\<And>x. k (h x) = k x) \<Longrightarrow> insort_key k (h x) (map h xs) = map h (insort_key k x xs)"
  by (induction xs) simp_all

lemma sort_key_map:
  "(\<And>x. k (h x) = k x) \<Longrightarrow> sort_key k (map h xs) = map h (sort_key k xs)"
  by (induction xs) (simp_all add: insort_key_map)

lemma getLeaderboard_renumber: "getLeaderboard (renumber f ps) = getLeaderboard ps"
proof -
  have "sort_key (\<lambda>p. - points p) (map (\<lambda>p. p\<lparr>playerNumber := f p\<rparr>) ps) =
          map (\<lambda>p. p\<lparr>playerNumber := f p\<rparr>) (sort_key (\<lambda>p. - points p) ps)"
    by (rule sort_key_map) simp
  then show ?thesis by (simp add: getLeaderboard_def renumber_def leaderboardEntry_def comp_def)
qed

lemma players_get_map:
  "(\<And>p. pid (h p) = pid p) \<Longrightarrow> players_get (map h ps) k = map_option h (players_get ps k)"
  by (induction ps) (auto simp: players_get_def)

lemma getPitPlayers_renumber: "getPitPlayers now (renumber f ps) rt k = getPitPlayers now ps rt k"
proof -
  have g: "players_get (map (\<lambda>p. p\<lparr>playerNumber := f p\<rparr>) ps) k =
          map_option (\<lambda>p. p\<lparr>playerNumber := f p\<rparr>) (players_get ps k)"
    by (rule players_get_map) simp
  show ?thesis
    by (cases "players_get ps k")
       (simp_all add: getPitPlayers_def renumber_def g filter_map comp_def Let_def)
qed

lemmas pit_defs = processAllAttacks_def resolveAttacks_def attacksByTarget_def attackOf_def
  attacking_def mkPlayer_def processGroup_def players_get_def gangAttacker_def singleAttack_def
  set_add_def isRevengeOn_def claimRevenge_def applyLoser_def applyWinner_def winnerPlayerOf_def
  players_modify_def resetLoser_def updatePlayerPoints_def updateDailyChallenge_def
  captureCharacter_def bonusOf_def determineWinner_def Let_def

subsection \<open>Gang attacks\<close>

lemma players_get_self:
  "distinct (map pid ps) \<Longrightarrow> a \<in> set ps \<Longrightarrow> players_get ps (pid a) = Some a"
  by (induction ps) (auto simp: players_get_def)

lemma outcome_mem:
  "(w, l, x) \<in> set (map outcome rs) \<Longrightarrow> \<exists>e \<in> set rs. winner e = w \<and> loser e = l \<and> reason e = x"
  by (auto simp: outcome_def)

lemma exGang_resolve:
  "losers (resolveAttacks 1000 (players (exGang p)) (revengeTargets (exGang p))) = [''T'']"
  by (simp add: exGang_def pit_defs)

text \<open>
  C1 (as amended). When more than one in-pit attacker targets the same in-pit player
  \<open>T\<close> in a resolution pass, the target loses to all of them: it is a loser of the pass,
  the results hold a "gang attack" entry for each attacker with the target as loser, and
  the target's points become \<open>max 0 (points - 1)\<close>: one decrement in total, floored at
  0. Each attacker that is not itself a loser of the same pass gains 1 point, plus 2 more
  if it held an unexpired revenge claim on the target; an attacker that is itself a loser
  of the same pass is settled as a loser. (The sessions have distinct keys and distinct
  persistent identities.)
\<close>

theorem gang_attack:
  fixes url now s T t
  defines "r \<equiv> resolveAttacks now (players s) (revengeTargets s)"
  defines "s' \<equiv> fst (processAllAttacks url now s)"
  assumes dp: "distinct (map pid (players s))"
    and dod: "distinct (map odIdentifier (players s))"
    and t: "players_get (players s) T = Some t" and pit: "inPit t"
    and len: "length (attackersOf (players s) T) > 1"
  shows "T \<in> set (losers r) \<and> pointsAt s' T = max 0 (points t - 1) \<and>
         (\<forall>a \<in> set (attackersOf (players s) T).
            (\<exists>e \<in> set (snd (processAllAttacks url now s)).
               winner e = Some (pid a) \<and> loser e = Some T \<and> reason e = ''gang attack'') \<and>
            (pid a \<notin> set (losers r) \<longrightarrow>
               pointsAt s' (pid a) =
                 points a + 1 + (if isRevengeOn (revengeTargets s) now a t then 2 else 0)) \<and>
            (pid a \<in> set (losers r) \<longrightarrow> pointsAt s' (pid a) = max 0 (points a - 1)))"
proof -
  note pts = processAllAttacks_points[of url now s]
  obtain a0 where a0: "a0 \<in> set (attackersOf (players s) T)"
    using len by (cases "attackersOf (players s) T") auto
  have tl: "T \<in> set (losers r)"
    unfolding r_def by (rule resolve_gang(1)[OF dp dod t pit len a0])
  have tp: "pointsAt s' T = max 0 (points t - 1)"
    using pts(1)[of T] tl t by (simp add: s'_def r_def pointsAt_def)
  have each: "(\<exists>e \<in> set (snd (processAllAttacks url now s)).
               winner e = Some (pid a) \<and> loser e = Some T \<and> reason e = ''gang attack'') \<and>
            (pid a \<notin> set (losers r) \<longrightarrow>
               pointsAt s' (pid a) =
                 points a + 1 + (if isRevengeOn (revengeTargets s) now a t then 2 else 0)) \<and>
            (pid a \<in> set (losers r) \<longrightarrow> pointsAt s' (pid a) = max 0 (points a - 1))"
    if a: "a \<in> set (attackersOf (players s) T)" for a
  proof -
    note g = resolve_gang[OF dp dod t pit len a, of now "revengeTargets s"]
    have "a \<in> set (players s)" using a attackersOf_mem by blast
    then have ga: "players_get (players s) (pid a) = Some a" using dp players_get_self by blast
    have "(Some (pid a), Some T, ''gang attack'') \<in> set (map outcome (snd (processAllAttacks url now s)))"
      using g(4) pts(2) by simp
    then have one: "\<exists>e \<in> set (snd (processAllAttacks url now s)).
               winner e = Some (pid a) \<and> loser e = Some T \<and> reason e = ''gang attack''"
      by (rule outcome_mem)
    have two: "pointsAt s' (pid a) =
                 points a + 1 + (if isRevengeOn (revengeTargets s) now a t then 2 else 0)"
      if "pid a \<notin> set (losers r)"
      using pts(1)[of "pid a"] g(2) g(3) ga that by (simp add: s'_def r_def pointsAt_def)
    have three: "pointsAt s' (pid a) = max 0 (points a - 1)" if "pid a \<in> set (losers r)"
      using pts(1)[of "pid a"] ga that by (simp add: s'_def r_def pointsAt_def)
    show ?thesis using one two three by blast
  qed
  show ?thesis using tl tp each by blast
qed

theorem gang_attack_witness:
  "pointsAt (fst (processAllAttacks True 1000 (exGang 5))) ''T'' = 4 \<and>
   pointsAt (fst (processAllAttacks True 1000 (exGang 5))) ''A'' = 13 \<and>
   pointsAt (fst (processAllAttacks True 1000 (exGang 5))) ''B'' = 11"
proof -
  let ?s = "exGang 5"
  let ?T = "mkPlayer ''T'' 5 50"
  let ?A = "(attacking (mkPlayer ''A'' 10 20) ''T'' Distance 1)\<lparr>clanName := Some ''Wolves''\<rparr>"
  let ?B = "attacking (mkPlayer ''B'' 10 80) ''T'' Melee 2"
  have h1: "distinct (map pid (players ?s))" "distinct (map odIdentifier (players ?s))"
    by (simp_all add: exGang_def mkPlayer_def attacking_def)
  have h2: "players_get (players ?s) ''T'' = Some ?T" "inPit ?T"
    by (simp_all add: exGang_def mkPlayer_def attacking_def players_get_def)
  have as: "attackersOf (players ?s) ''T'' = [?A, ?B]"
    by (simp add: exGang_def mkPlayer_def attacking_def attackersOf_def attackOf_def)
  have h3: "length (attackersOf (players ?s) ''T'') > 1" by (simp add: as)
  note g = gang_attack[where url = True and now = 1000, OF h1 h2 h3]
  have rA: "isRevengeOn (revengeTargets ?s) 1000 ?A ?T"
    and rB: "\<not> isRevengeOn (revengeTargets ?s) 1000 ?B ?T"
    by (simp_all add: exGang_def isRevengeOn_def mkPlayer_def attacking_def)
  have pA: "pid ?A = ''A''" "points ?A = 10" and pB: "pid ?B = ''B''" "points ?B = 10"
    and pT: "points ?T = 5"
    by (simp_all add: mkPlayer_def attacking_def)
  have nl: "pid ?A \<notin> set (losers (resolveAttacks 1000 (players ?s) (revengeTargets ?s)))"
    "pid ?B \<notin> set (losers (resolveAttacks 1000 (players ?s) (revengeTargets ?s)))"
    by (simp_all add: exGang_resolve pA pB)
  have inA: "?A \<in> set (attackersOf (players ?s) ''T'')" and inB: "?B \<in> set (attackersOf (players ?s) ''T'')"
    by (simp_all add: as)
  from g have t: "pointsAt (fst (processAllAttacks True 1000 ?s)) ''T'' = max 0 (points ?T - 1)"
    by blast
  from g have all: "\<forall>a \<in> set (attackersOf (players ?s) ''T'').
       (\<exists>e \<in> set (snd (processAllAttacks True 1000 ?s)).
               winner e = Some (pid a) \<and> loser e = Some ''T'' \<and> reason e = ''gang attack'') \<and>
       (pid a \<notin> set (losers (resolveAttacks 1000 (players ?s) (revengeTargets ?s))) \<longrightarrow>
        pointsAt (fst (processAllAttacks True 1000 ?s)) (pid a) =
          points a + 1 + (if isRevengeOn (revengeTargets ?s) 1000 a ?T then 2 else 0)) \<and>
       (pid a \<in> set (losers (resolveAttacks 1000 (players ?s) (revengeTargets ?s))) \<longrightarrow>
        pointsAt (fst (processAllAttacks True 1000 ?s)) (pid a) = max 0 (points a - 1))"
    by blast
  have a: "pointsAt (fst (processAllAttacks True 1000 ?s)) (pid ?A) =
          points ?A + 1 + (if isRevengeOn (revengeTargets ?s) 1000 ?A ?T then 2 else 0)"
    using bspec[OF all inA] nl(1) by blast
  have b: "pointsAt (fst (processAllAttacks True 1000 ?s)) (pid ?B) =
          points ?B + 1 + (if isRevengeOn (revengeTargets ?s) 1000 ?B ?T then 2 else 0)"
    using bspec[OF all inB] nl(2) by blast
  show ?thesis
    unfolding t a[unfolded pA] b[unfolded pB] using rA rB by (simp add: pT)
qed

text \<open>
  C1 as stated fails for a target at 0 points: two attackers gang up on it and its
  points stay 0; they do not decrease by 1.
\<close>

theorem gang_attack_target_at_zero:
  "length (attackersOf (players (exGang 0)) ''T'') = 2 \<and>
   pointsAt (exGang 0) ''T'' = 0 \<and>
   pointsAt (fst (processAllAttacks True 1000 (exGang 0))) ''T'' = 0"
  by (simp add: exGang_def pit_defs pointsAt_def attackersOf_def)

subsection \<open>Capture\<close>

text \<open>
  C2. At every step of the loop that settles the losers of a pass: the loser \<open>l\<close> has a
  session \<open>p\<close> and the winner of the first result naming it has a session \<open>wp\<close>; after
  the step the loser's points are \<open>max 0 (points - 1)\<close>, never below 0. If they are 0,
  the loser's clan is the winner's clan and, with a database configured, the loser's
  row holds the winner's clan and the winner's persistent identity as owner; if they are
  not 0, the loser's clan and the clan and owner of its row are unchanged.
\<close>

theorem capture_invariant:
  fixes url now s l settled pending
  defines "r \<equiv> resolveAttacks now (players s) (revengeTargets s)"
  defines "before \<equiv>
    foldl (applyLoser url now) (s\<lparr>revengeTargets := revenges r\<rparr>, results r) settled"
  defines "after \<equiv> applyLoser url now before l"
  assumes split: "losers r = settled @ l # pending"
  shows "\<exists>p wp p'.
           players_get (players (fst before)) l = Some p \<and>
           winnerPlayerOf (players (fst before)) (snd before) l = Some wp \<and>
           players_get (players (fst after)) l = Some p' \<and>
           points p' = max 0 (points p - 1) \<and> 0 \<le> points p' \<and>
           (points p' = 0 \<longrightarrow>
              clanName p' = clanName wp \<and>
              (url \<longrightarrow> (\<forall>row. table (fst before) (odIdentifier p) = Some row \<longrightarrow>
                 table (fst after) (odIdentifier p) =
                   Some (row\<lparr>row_points := 0, clan_name := clanName wp,
                             owner_id := Some (odIdentifier wp)\<rparr>)))) \<and>
           (points p' \<noteq> 0 \<longrightarrow>
              clanName p' = clanName p \<and>
              (\<forall>row. table (fst before) (odIdentifier p) = Some row \<longrightarrow>
                 (\<exists>row'. table (fst after) (odIdentifier p) = Some row' \<and>
                         clan_name row' = clan_name row \<and> owner_id row' = owner_id row)))"
proof -
  obtain s1 rs1 where b: "before = (s1, rs1)" by (cases before)
  have inv0: "resolved (players s) (results r) (losers r)"
    unfolding r_def by (rule resolveAttacks_resolved)
  have "map pid (players s1) = map pid (players s)" "map outcome rs1 = map outcome (results r)"
    using loser_fold_resolved[of url now "s\<lparr>revengeTargets := revenges r\<rparr>" "results r" settled] b
    by (simp_all add: before_def)
  then have "resolved (players s1) rs1 (losers r)"
    using inv0 resolved_cong by blast
  moreover have "l \<in> set (losers r)" using split by simp
  ultimately obtain p wp where p: "players_get (players s1) l = Some p"
    and wp: "winnerPlayerOf (players s1) rs1 l = Some wp"
    using resolved_winnerPlayer by blast
  note st = applyLoser_step[OF p wp, of url now]
  let ?p' = "resetLoser (p\<lparr>points := max 0 (points p - 1),
                   clanName := (if max 0 (points p - 1) = 0 then clanName wp else clanName p)\<rparr>)"
  have a: "players_get (players (fst after)) l = Some ?p'"
    using st(1) by (simp add: after_def b)
  have t: "table (fst after) =
           (if max 0 (points p - 1) = 0
            then captureCharacter url (odIdentifier p) (clanName wp) (Some (odIdentifier wp))
                   (updatePlayerPoints url (odIdentifier p) 0 (table s1))
            else updatePlayerPoints url (odIdentifier p) (max 0 (points p - 1)) (table s1))"
    using st(2) by (simp add: after_def b)
  show ?thesis
    apply (rule exI[of _ p], rule exI[of _ wp], rule exI[of _ ?p'])
    using p wp a
    by (auto simp: b t resetLoser_def captureCharacter_def updatePlayerPoints_def)
qed

theorem capture_invariant_witness:
  "pointsAt (fst (applyLoser True 1000
      ((exGang 1)\<lparr>revengeTargets :=
          revenges (resolveAttacks 1000 (players (exGang 1)) (revengeTargets (exGang 1)))\<rparr>,
       results (resolveAttacks 1000 (players (exGang 1)) (revengeTargets (exGang 1)))) ''T'')) ''T'' = 0 \<and>
   map_option clanName (players_get (players (fst (applyLoser True 1000
      ((exGang 1)\<lparr>revengeTargets :=
          revenges (resolveAttacks 1000 (players (exGang 1)) (revengeTargets (exGang 1)))\<rparr>,
       results (resolveAttacks 1000 (players (exGang 1)) (revengeTargets (exGang 1)))) ''T''))) ''T'')
     = Some (Some ''Wolves'') \<and>
   map_option (\<lambda>row. (row_points row, clan_name row, owner_id row))
     (table (fst (applyLoser True 1000
      ((exGang 1)\<lparr>revengeTargets :=
          revenges (resolveAttacks 1000 (players (exGang 1)) (revengeTargets (exGang 1)))\<rparr>,
       results (resolveAttacks 1000 (players (exGang 1)) (revengeTargets (exGang 1)))) ''T'')) ''od_T'')
     = Some (0, Some ''Wolves'', Some ''od_A'')"
proof -
  let ?s = "exGang 1"
  let ?r = "resolveAttacks 1000 (players ?s) (revengeTargets ?s)"
  let ?before = "(?s\<lparr>revengeTargets := revenges ?r\<rparr>, results ?r)"
  let ?after = "applyLoser True 1000 ?before ''T''"
  let ?T = "mkPlayer ''T'' 1 50"
  let ?A = "(attacking (mkPlayer ''A'' 10 20) ''T'' Distance 1)\<lparr>clanName := Some ''Wolves''\<rparr>"
  have l: "losers ?r = [] @ ''T'' # []" by (simp add: exGang_resolve)
  note c = capture_invariant[where url = True and now = 1000 and s = "?s" and settled = "[]"
        and l = "''T''" and pending = "[]", OF l, simplified foldl_Nil]
  from c obtain p wp p' where
    p: "players_get (players (fst ?before)) ''T'' = Some p"
    and wp: "winnerPlayerOf (players (fst ?before)) (snd ?before) ''T'' = Some wp"
    and p': "players_get (players (fst ?after)) ''T'' = Some p'"
    and pts: "points p' = max 0 (points p - 1)"
    and cap: "points p' = 0 \<longrightarrow> clanName p' = clanName wp \<and>
        (\<forall>row. table (fst ?before) (odIdentifier p) = Some row \<longrightarrow>
                 table (fst ?after) (odIdentifier p) =
                   Some (row\<lparr>row_points := 0, clan_name := clanName wp,
                             owner_id := Some (odIdentifier wp)\<rparr>))"
    by auto
  have "players_get (players (fst ?before)) ''T'' = Some ?T"
    by (simp add: exGang_def players_get_def mkPlayer_def attacking_def)
  then have pe: "p = ?T" using p by simp
  have "winnerPlayerOf (players (fst ?before)) (snd ?before) ''T'' = Some ?A"
    by (simp add: exGang_def pit_defs)
  then have we: "wp = ?A" using wp by simp
  have z: "points p' = 0" using pts by (simp add: pe mkPlayer_def)
  have row: "table (fst ?before) (odIdentifier p) = Some (mkRow ''T'' 1 50 ''Bears'')"
    by (simp add: pe exGang_def mkPlayer_def)
  have "table (fst ?after) (odIdentifier p) =
          Some ((mkRow ''T'' 1 50 ''Bears'')\<lparr>row_points := 0, clan_name := clanName wp,
                  owner_id := Some (odIdentifier wp)\<rparr>)"
    using cap z row by blast
  then have tb: "table (fst ?after) ''od_T'' =
          Some ((mkRow ''T'' 1 50 ''Bears'')\<lparr>row_points := 0, clan_name := Some ''Wolves'',
                  owner_id := Some ''od_A''\<rparr>)"
    by (simp add: pe we mkPlayer_def attacking_def)
  have cl: "clanName p' = Some ''Wolves''" using cap z by (simp add: we)
  show ?thesis unfolding pointsAt_def p' tb using z cl by simp
qed

subsection \<open>A loser of the pass in a later gang attack\<close>

text \<open>
  C5, evaluated on a pass where A and B attack X while X and Z attack Y. The group of X
  is resolved first and X loses it; the group of Y is a gang attack too, and its loop
  over the attackers does not test whether an attacker has already lost: X is recorded
  as the winner of a "gang attack" result against Y and becomes the revenge target of
  Y. Only the points are withheld: X ends at 9.
\<close>

theorem loser_recorded_as_gang_winner:
  "map outcome (snd (processAllAttacks False 1000 exDouble)) =
     [(Some ''A'', Some ''X'', ''gang attack''), (Some ''B'', Some ''X'', ''gang attack''),
      (Some ''X'', Some ''Y'', ''gang attack''), (Some ''Z'', Some ''Y'', ''gang attack'')] \<and>
   map_option revengeOd (revengeTargets (fst (processAllAttacks False 1000 exDouble)) ''od_Y'')
     = Some ''od_X'' \<and>
   pointsAt (fst (processAllAttacks False 1000 exDouble)) ''X'' = 9"
  by (simp add: exDouble_def pit_defs outcome_def pointsAt_def)

subsection \<open>Draw numbers in outbound payloads\<close>

text \<open>
  C8 (as amended). The leaderboard and the pit occupant list do not depend on any
  player's draw number: replacing the draw numbers of the sessions leaves both payloads
  as they are. A battle result does carry draw numbers: its fields \<open>attackerNumber\<close> and
  \<open>defenderNumber\<close> are the draw numbers of the attacker and of the target.
\<close>

theorem draw_numbers_in_payloads:
  "getLeaderboard (renumber f ps) = getLeaderboard ps \<and>
   getPitPlayers now (renumber f ps) rt k = getPitPlayers now ps rt k \<and>
   attackerNumber (determineWinner a t) = playerNumber a \<and>
   defenderNumber (determineWinner a t) = playerNumber t \<and>
   attackerNumber (last (results (gangAttacker now t rs a))) = playerNumber a \<and>
   defenderNumber (last (results (gangAttacker now t rs a))) = playerNumber t"
  by (simp add: getLeaderboard_renumber getPitPlayers_renumber determineWinner_def
        gangAttacker_def claimRevenge_def Let_def)

text \<open>
  C8 as stated fails for the battle-result event: two passes that differ only in the
  draw number of the attacker (42 or 43) return different results, each showing the
  attacker's and the defender's draw number.
\<close>

theorem battle_results_reveal_numbers:
  "map (\<lambda>e. (attackerNumber e, defenderNumber e)) (snd (processAllAttacks False 1000 (exDuel 42)))
     = [(42, 7)] \<and>
   map (\<lambda>e. (attackerNumber e, defenderNumber e)) (snd (processAllAttacks False 1000 (exDuel 43)))
     = [(43, 7)] \<and>
   exDuel 43 = (exDuel 42)\<lparr>players := renumber (\<lambda>p. if pid p = ''a'' then 43 else playerNumber p)
                                         (players (exDuel 42))\<rparr>"
  by (simp add: exDuel_def pit_defs renumber_def)

end
